theory Spec2Isabelle
  imports Complex_Main "HOL-Library.AList"
begin

section \<open>Python values used by the grading application\<close>

subsection \<open>Floats\<close>

text \<open>
  A Python \<^verbatim>\<open>float\<close> is an IEEE 754 binary64 value. A finite one is represented by the
  rational number it denotes; the two infinities and NaN are separate constructors.
  The sign of zero is not represented (\<^verbatim>\<open>-0.0\<close> and \<^verbatim>\<open>0.0\<close> compare equal in Python and
  the program never divides by a score). The type has more finite values than binary64
  has: a statement about every \<open>Finite q\<close> covers every double, and the predicate
  \<open>is_double\<close> below singles out the representable ones where rounding matters.
\<close>

datatype pyfloat = Finite rat | PosInf | NegInf | NaN

fun is_finite :: "pyfloat \<Rightarrow> bool" where
  "is_finite (Finite q) = True"
| "is_finite x = False"

text \<open>The comparison \<^verbatim>\<open>a <= b\<close>: false as soon as one side is NaN.\<close>

fun py_le :: "pyfloat \<Rightarrow> pyfloat \<Rightarrow> bool" where
  "py_le NaN y = False"
| "py_le x NaN = False"
| "py_le NegInf y = True"
| "py_le x PosInf = True"
| "py_le (Finite a) (Finite b) = (a \<le> b)"
| "py_le x y = False"

subsection \<open>Rounding a rational to binary64\<close>

text \<open>Number of binary digits of a natural number (\<^verbatim>\<open>int.bit_length\<close>).\<close>

fun bit_length :: "nat \<Rightarrow> nat" where
  "bit_length n = (if n = 0 then 0 else Suc (bit_length (n div 2)))"

declare bit_length.simps [simp del]

definition pow2 :: "int \<Rightarrow> rat" where
  "pow2 e = (if 0 \<le> e then 2 ^ nat e else 1 / 2 ^ nat (- e))"

text \<open>For \<open>q > 0\<close>, the integer \<open>e\<close> with \<open>2\<^sup>e \<le> q < 2\<^sup>e\<^sup>+\<^sup>1\<close>.\<close>

definition floor_log2 :: "rat \<Rightarrow> int" where
  "floor_log2 q =
     (if 1 \<le> q then int (bit_length (nat \<lfloor>q\<rfloor>)) - 1
      else - int (bit_length (nat (\<lceil>1 / q\<rceil> - 1))))"

text \<open>Rounding to the nearest integer, ties to the even neighbour.\<close>

definition round_half_even :: "rat \<Rightarrow> int" where
  "round_half_even x =
     (let n = \<lfloor>x\<rfloor>; d = x - of_int n
      in if d < 1 / 2 then n else if 1 / 2 < d then n + 1
         else if even n then n else n + 1)"

text \<open>
  \<open>fl q\<close> is the binary64 value nearest to \<open>q\<close> (round to nearest, ties to even, the
  rounding of every arithmetic operation of CPython). Doubles near \<open>q\<close> are the multiples
  of \<open>2\<^sup>p\<close>, where \<open>p\<close> leaves 53 significant bits and is at least \<open>-1074\<close> (subnormals);
  a result of magnitude \<open>2\<^sup>1\<^sup>0\<^sup>2\<^sup>4\<close> or more overflows to an infinity.
\<close>

definition fl :: "rat \<Rightarrow> pyfloat" where
  "fl q =
     (if q = 0 then Finite 0
      else let p = max (floor_log2 \<bar>q\<bar> - 52) (- 1074);
               r = of_int (round_half_even (q / pow2 p)) * pow2 p
           in if 2 ^ 1024 \<le> r then PosInf
              else if r \<le> - (2 ^ 1024) then NegInf
              else Finite r)"

definition is_double :: "rat \<Rightarrow> bool" where
  "is_double q = (fl q = Finite q)"

subsection \<open>Float arithmetic\<close>

datatype py_error = ZeroDivisionError

fun py_neg :: "pyfloat \<Rightarrow> pyfloat" where
  "py_neg (Finite a) = Finite (- a)"
| "py_neg PosInf = NegInf"
| "py_neg NegInf = PosInf"
| "py_neg NaN = NaN"

fun py_abs :: "pyfloat \<Rightarrow> pyfloat" where
  "py_abs (Finite a) = Finite \<bar>a\<bar>"
| "py_abs PosInf = PosInf"
| "py_abs NegInf = PosInf"
| "py_abs NaN = NaN"

fun py_add :: "pyfloat \<Rightarrow> pyfloat \<Rightarrow> pyfloat" where
  "py_add (Finite a) (Finite b) = fl (a + b)"
| "py_add NaN y = NaN"
| "py_add x NaN = NaN"
| "py_add PosInf NegInf = NaN"
| "py_add NegInf PosInf = NaN"
| "py_add PosInf y = PosInf"
| "py_add x PosInf = PosInf"
| "py_add NegInf y = NegInf"
| "py_add x NegInf = NegInf"

definition py_sub :: "pyfloat \<Rightarrow> pyfloat \<Rightarrow> pyfloat" where
  "py_sub x y = py_add x (py_neg y)"

text \<open>
  \<^verbatim>\<open>x / y\<close> on floats. Python raises \<^verbatim>\<open>ZeroDivisionError\<close> for a zero divisor whatever
  the dividend is.
\<close>

fun py_div :: "pyfloat \<Rightarrow> pyfloat \<Rightarrow> py_error + pyfloat" where
  "py_div x (Finite b) =
     (if b = 0 then Inl ZeroDivisionError
      else Inr (case x of
                  Finite a \<Rightarrow> fl (a / b)
                | PosInf \<Rightarrow> (if 0 < b then PosInf else NegInf)
                | NegInf \<Rightarrow> (if 0 < b then NegInf else PosInf)
                | NaN \<Rightarrow> NaN))"
| "py_div x NaN = Inr NaN"
| "py_div (Finite a) y = Inr (Finite 0)"
| "py_div x y = Inr NaN"

text \<open>
  \<^verbatim>\<open>x / n\<close> for a float \<open>x\<close> and an \<^verbatim>\<open>int\<close> \<open>n\<close> that is a \<^verbatim>\<open>len\<close> or a counter: the integer is
  converted to the nearest float first. (A count is below \<open>2\<^sup>6\<^sup>3\<close> in CPython, so the
  conversion does not overflow.)
\<close>

definition py_truediv :: "pyfloat \<Rightarrow> nat \<Rightarrow> py_error + pyfloat" where
  "py_truediv x n = py_div x (fl (of_nat n))"

text \<open>
  \<^verbatim>\<open>round(x, 2)\<close>: infinities and NaN are returned as they are; a finite value is rounded
  to the nearest multiple of \<open>1/100\<close> by its exact binary value, ties to even, and the
  decimal result is converted back to the nearest float.
\<close>

fun py_round2 :: "pyfloat \<Rightarrow> pyfloat" where
  "py_round2 (Finite q) = fl (of_int (round_half_even (q * 100)) / 100)"
| "py_round2 x = x"

text \<open>
  The builtin \<^verbatim>\<open>sum\<close> over floats starts from the \<^verbatim>\<open>int\<close> \<open>0\<close>, adds the first float to
  it, and continues in a C loop over doubles. Up to CPython 3.11 that loop is a plain
  running sum; from CPython 3.12 on it is Neumaier's compensated summation. Both are
  modelled; the interpreter version is a parameter of the operations that call \<^verbatim>\<open>sum\<close>.
\<close>

datatype sum_algorithm = Naive | Neumaier

fun neumaier_loop :: "pyfloat \<Rightarrow> pyfloat \<Rightarrow> pyfloat list \<Rightarrow> pyfloat" where
  "neumaier_loop f c [] = (if c \<noteq> Finite 0 \<and> is_finite c then py_add f c else f)"
| "neumaier_loop f c (x # xs) =
     (let t = py_add f x;
          c' = (if py_le (py_abs x) (py_abs f)
                then py_add c (py_add (py_sub f t) x)
                else py_add c (py_add (py_sub x t) f))
      in neumaier_loop t c' xs)"

fun py_sum :: "sum_algorithm \<Rightarrow> pyfloat list \<Rightarrow> pyfloat" where
  "py_sum Naive xs = foldl py_add (Finite 0) xs"
| "py_sum Neumaier [] = Finite 0"
| "py_sum Neumaier (x # xs) = neumaier_loop (py_add (Finite 0) x) (Finite 0) xs"

section \<open>The store and its operations\<close>

text \<open>
  \<^verbatim>\<open>student_data\<close> is a \<^verbatim>\<open>dict\<close> from student names to \<^verbatim>\<open>dict\<close>s from subject names to
  floats. A Python \<^verbatim>\<open>dict\<close> keeps its keys in insertion order, so it is an association
  list: \<open>map_of d k\<close> is the lookup \<^verbatim>\<open>d[k]\<close> (\<open>None\<close> for a missing key),
  \<open>AList.update k v d\<close> is the assignment \<^verbatim>\<open>d[k] = v\<close> (an existing key keeps its place,
  a new key goes to the end) and \<open>AList.delete k d\<close> is \<^verbatim>\<open>del d[k]\<close>. The keys of a
  \<^verbatim>\<open>dict\<close> are distinct; the operations keep them so (lemma \<open>operations_keep_keys_distinct\<close>).
  The module-level variable is threaded through the operations: each takes the store
  and returns the new one.
\<close>

type_synonym grades = "(string \<times> pyfloat) list"

type_synonym store = "(string \<times> grades) list"

text \<open>
  What an operation prints, one constructor for each \<^verbatim>\<open>print\<close> of the source (the three
  wordings of the "not found" error for a student are one constructor).
\<close>

datatype average = NotApplicable | Average pyfloat

datatype message =
    StudentAdded string
  | DuplicateStudent string
  | GradeAdded string string pyfloat
  | StudentNotFound string
  | InvalidGradeFormat
  | GradeOutOfRange
  | StudentDeleted string
  | GradeDeleted string string
  | SubjectNotFound string string
  | ReportHeader string
  | NoGradesRecorded
  | SubjectLine string pyfloat
  | OverallAverage average
  | Separator nat
  | DataLoaded
  | DecodeWarning
  | NoDataFile
  | DataSaved

subsection \<open>Persistence\<close>

text \<open>
  The data file is absent (\<open>None\<close>) or holds a text; opening, reading and writing it are
  taken to succeed. \<^verbatim>\<open>json.load\<close> and \<^verbatim>\<open>json.dump\<close> belong to the Python library: they
  are parameters, \<open>json_load\<close> returning \<open>None\<close> where the library raises
  \<^verbatim>\<open>JSONDecodeError\<close>. The range of \<open>json_load\<close> is the type of the store: a document of
  another shape (a list, a student that is not an object, a score that Python reads as an
  \<^verbatim>\<open>int\<close> or a string) is outside this model.
\<close>

definition load_data ::
  "(string \<Rightarrow> store option) \<Rightarrow> store \<Rightarrow> string option \<Rightarrow> store \<times> message" where
  "load_data json_load student_data file =
     (case file of
        Some text \<Rightarrow>
          (case json_load text of
             Some loaded \<Rightarrow> (loaded, DataLoaded)
           | None \<Rightarrow> ([], DecodeWarning))
      | None \<Rightarrow> (student_data, NoDataFile))"


subsection \<open>Adding\<close>

definition add_student :: "store \<Rightarrow> string \<Rightarrow> store \<times> message" where
  "add_student student_data name =
     (if map_of student_data name \<noteq> None then (student_data, DuplicateStudent name)
      else (AList.update name [] student_data, StudentAdded name))"

text \<open>
  \<open>float_of\<close> is the builtin \<^verbatim>\<open>float\<close> applied to the text typed by the user: \<open>None\<close>
  where it raises \<^verbatim>\<open>ValueError\<close>.
\<close>

definition in_range :: "pyfloat \<Rightarrow> bool" where
  "in_range grade = (py_le (Finite 0) grade \<and> py_le grade (Finite 100))"

definition add_grade ::
  "(string \<Rightarrow> pyfloat option) \<Rightarrow> store \<Rightarrow> string \<Rightarrow> string \<Rightarrow> string \<Rightarrow> store \<times> message"
  where
  "add_grade float_of student_data name subject grade =
     (case map_of student_data name of
        None \<Rightarrow> (student_data, StudentNotFound name)
      | Some subjects \<Rightarrow>
          (case float_of grade of
             Some g \<Rightarrow>
               (if in_range g
                then (AList.update name (AList.update subject g subjects) student_data,
                      GradeAdded name subject g)
                else (student_data, GradeOutOfRange))
           | None \<Rightarrow> (student_data, InvalidGradeFormat)))"

subsection \<open>Averages and the report\<close>

definition calculate_average_grade ::
  "sum_algorithm \<Rightarrow> store \<Rightarrow> string \<Rightarrow> py_error + average" where
  "calculate_average_grade alg student_data name =
     (case map_of student_data name of
        None \<Rightarrow> Inr NotApplicable
      | Some subjects \<Rightarrow>
          (if subjects = [] then Inr NotApplicable
           else (case py_truediv (py_sum alg (map snd subjects)) (length subjects) of
                   Inl e \<Rightarrow> Inl e
                 | Inr a \<Rightarrow> Inr (Average (py_round2 a)))))"

definition view_student_report ::
  "sum_algorithm \<Rightarrow> store \<Rightarrow> string \<Rightarrow> py_error + message list" where
  "view_student_report alg student_data name =
     (case map_of student_data name of
        None \<Rightarrow> Inr [StudentNotFound name]
      | Some subjects \<Rightarrow>
          (if subjects = [] then Inr [ReportHeader name, NoGradesRecorded]
           else (case calculate_average_grade alg student_data name of
                   Inl e \<Rightarrow> Inl e
                 | Inr a \<Rightarrow>
                     Inr (ReportHeader name # map (\<lambda>(subject, grade). SubjectLine subject grade) subjects
                          @ [OverallAverage a, Separator (length name + 18)]))))"

text \<open>The loop of \<^verbatim>\<open>calculate_class_subject_average\<close>, on the pair of its two counters.\<close>

fun class_totals :: "string \<Rightarrow> store \<Rightarrow> pyfloat \<times> nat \<Rightarrow> pyfloat \<times> nat" where
  "class_totals subject [] acc = acc"
| "class_totals subject ((name, subjects) # rest) (total_grades, student_count) =
     (case map_of subjects subject of
        Some g \<Rightarrow> class_totals subject rest (py_add total_grades g, student_count + 1)
      | None \<Rightarrow> class_totals subject rest (total_grades, student_count))"

definition calculate_class_subject_average :: "store \<Rightarrow> string \<Rightarrow> py_error + average" where
  "calculate_class_subject_average student_data subject =
     (case class_totals subject student_data (Finite 0, 0) of
        (total_grades, student_count) \<Rightarrow>
          (if student_count = 0 then Inr NotApplicable
           else (case py_truediv total_grades student_count of
                   Inl e \<Rightarrow> Inl e
                 | Inr a \<Rightarrow> Inr (Average (py_round2 a)))))"

subsection \<open>Deleting\<close>

definition delete_student :: "store \<Rightarrow> string \<Rightarrow> store \<times> message" where
  "delete_student student_data name =
     (if map_of student_data name \<noteq> None then (AList.delete name student_data, StudentDeleted name)
      else (student_data, StudentNotFound name))"

definition delete_grade :: "store \<Rightarrow> string \<Rightarrow> string \<Rightarrow> store \<times> message" where
  "delete_grade student_data name subject =
     (case map_of student_data name of
        None \<Rightarrow> (student_data, StudentNotFound name)
      | Some subjects \<Rightarrow>
          (if map_of subjects subject \<noteq> None
           then (AList.update name (AList.delete subject subjects) student_data,
                 GradeDeleted name subject)
           else (student_data, SubjectNotFound name subject)))"

subsection \<open>The menus\<close>

text \<open>
  One constructor for each choice of \<^verbatim>\<open>main_menu\<close> and \<^verbatim>\<open>delete_menu\<close> that reaches an
  operation, with the texts the user typed at the prompts. \<open>run_command\<close> is the effect
  of the choice on the store; \<open>session\<close> is the store after start-up (\<^verbatim>\<open>load_data\<close> into
  the empty store) and a sequence of choices. Choice 5 prints the keys of the store.
\<close>

datatype command =
    AddStudent string
  | AddGrade string string string
  | ViewReport string
  | ClassAverage string
  | ListStudents
  | DeleteStudent string
  | DeleteGrade string string

definition list_students :: "store \<Rightarrow> string list" where
  "list_students student_data = map fst student_data"

fun run_command :: "(string \<Rightarrow> pyfloat option) \<Rightarrow> store \<Rightarrow> command \<Rightarrow> store" where
  "run_command float_of student_data (AddStudent name) = fst (add_student student_data name)"
| "run_command float_of student_data (AddGrade name subject grade) =
     fst (add_grade float_of student_data name subject grade)"
| "run_command float_of student_data (ViewReport name) = student_data"
| "run_command float_of student_data (ClassAverage subject) = student_data"
| "run_command float_of student_data ListStudents = student_data"
| "run_command float_of student_data (DeleteStudent name) = fst (delete_student student_data name)"
| "run_command float_of student_data (DeleteGrade name subject) =
     fst (delete_grade student_data name subject)"

definition session ::
  "(string \<Rightarrow> pyfloat option) \<Rightarrow> (string \<Rightarrow> store option) \<Rightarrow> string option \<Rightarrow> command list \<Rightarrow> store"
  where
  "session float_of json_load file commands =
     foldl (run_command float_of) (fst (load_data json_load [] file)) commands"

section \<open>Notions used in the statements\<close>

text \<open>All the scores held in the store, student by student.\<close>

definition stored_scores :: "store \<Rightarrow> pyfloat list" where
  "stored_scores student_data = concat (map (\<lambda>entry. map snd (snd entry)) student_data)"

text \<open>The invariant of the data model: every stored score lies in \<open>[0, 100]\<close>.\<close>

definition scores_in_range :: "store \<Rightarrow> bool" where
  "scores_in_range student_data = (\<forall>g \<in> set (stored_scores student_data). in_range g)"

text \<open>The keys of the store and of every grade mapping are distinct, as in a \<^verbatim>\<open>dict\<close>.\<close>

definition keys_distinct :: "store \<Rightarrow> bool" where
  "keys_distinct student_data =
     (distinct (map fst student_data)
      \<and> (\<forall>entry \<in> set student_data. distinct (map fst (snd entry))))"

text \<open>
  The scores that the loop of \<^verbatim>\<open>calculate_class_subject_average\<close> meets: those of the
  students that have an entry for the subject, in the order of the students.
\<close>

fun subject_scores :: "string \<Rightarrow> store \<Rightarrow> pyfloat list" where
  "subject_scores subject [] = []"
| "subject_scores subject ((name, subjects) # rest) =
     (case map_of subjects subject of
        Some g \<Rightarrow> g # subject_scores subject rest
      | None \<Rightarrow> subject_scores subject rest)"

subsection \<open>The average as the specification words it\<close>

text \<open>
  The specification asks for the arithmetic mean of the scores, rounded to two decimal
  places under one tie-breaking rule, half-to-even or half-away-from-zero. The mean is
  taken in exact rational arithmetic here; the rounded decimal is returned as the nearest
  float, as any float result has to be.
\<close>

datatype tie_rule = HalfEven | HalfAwayFromZero

definition round_half_away :: "rat \<Rightarrow> int" where
  "round_half_away x = (if 0 \<le> x then \<lfloor>x + 1 / 2\<rfloor> else - \<lfloor>- x + 1 / 2\<rfloor>)"

fun round_2dp :: "tie_rule \<Rightarrow> rat \<Rightarrow> rat" where
  "round_2dp HalfEven x = of_int (round_half_even (x * 100)) / 100"
| "round_2dp HalfAwayFromZero x = of_int (round_half_away (x * 100)) / 100"

definition exact_mean :: "rat list \<Rightarrow> rat" where
  "exact_mean qs = sum_list qs / of_nat (length qs)"

definition spec_average :: "tie_rule \<Rightarrow> rat list \<Rightarrow> average" where
  "spec_average rule qs =
     (if qs = [] then NotApplicable else Average (fl (round_2dp rule (exact_mean qs))))"

text \<open>
  A list of scores on which the float arithmetic of the averages is exact: every score,
  every running sum, the count and the mean are doubles.
\<close>

fun partial_sums_exact :: "rat \<Rightarrow> rat list \<Rightarrow> bool" where
  "partial_sums_exact acc [] = True"
| "partial_sums_exact acc (q # qs) =
     (is_double q \<and> is_double (acc + q) \<and> partial_sums_exact (acc + q) qs)"

definition exactly_summable :: "rat list \<Rightarrow> bool" where
  "exactly_summable qs =
     (partial_sums_exact 0 qs \<and> is_double (of_nat (length qs)) \<and> is_double (exact_mean qs))"

section \<open>Sample data\<close>

definition sample_data :: store where
  "sample_data = [(''Ann'', [(''Math'', Finite 70), (''Art'', Finite 55)]), (''Bob'', [])]"

text \<open>
  The values of \<^verbatim>\<open>float\<close> on the texts typed in the examples below; every other text
  stands for one that \<^verbatim>\<open>float\<close> rejects, as it rejects \<^verbatim>\<open>abc\<close>.
\<close>

definition sample_float_of :: "string \<Rightarrow> pyfloat option" where
  "sample_float_of text =
     (if text = ''85'' then Some (Finite 85)
      else if text = ''150'' then Some (Finite 150)
      else if text = ''nan'' then Some NaN
      else if text = ''inf'' then Some PosInf
      else if text = ''-inf'' then Some NegInf
      else None)"

text \<open>The floats that Python writes \<^verbatim>\<open>0.01\<close> and \<^verbatim>\<open>0.02\<close> (\<open>float('0.01')\<close>, \<open>float('0.02')\<close>).\<close>

definition double_0_01 :: rat where
  "double_0_01 = 5764607523034235 / 2 ^ 59"

definition double_0_02 :: rat where
  "double_0_02 = 5764607523034235 / 2 ^ 58"

text \<open>One student with the grades 0.01 and 0.02; two students with one of them each.\<close>

definition cents_data :: store where
  "cents_data = [(''Ann'', [(''Math'', Finite double_0_01), (''Art'', Finite double_0_02)])]"

definition cents_class :: store where
  "cents_class = [(''Ann'', [(''Math'', Finite double_0_01)]), (''Bob'', [(''Math'', Finite double_0_02)])]"

text \<open>The class of the specification's example: A has 100 in Math, B has 50, C has no grade.\<close>

definition class_sample :: store where
  "class_sample = [(''A'', [(''Math'', Finite 100)]), (''B'', [(''Math'', Finite 50)]), (''C'', [])]"

text \<open>
  A data file edited by hand, and the file that \<^verbatim>\<open>save_data\<close> writes for a store with
  one student (\<^verbatim>\<open>json.dump\<close> with \<^verbatim>\<open>indent=4\<close>).
\<close>

definition edited_file :: string where
  \<open>edited_file = ''{"A": {"Math": 150.0}}''\<close>

definition bob_data :: store where
  "bob_data = [(''Bob'', [(''Art'', Finite 55)])]"

definition bob_file :: string where
  \<open>bob_file = ''{\<newline>    "Bob": {\<newline>        "Art": 55.0\<newline>    }\<newline>}''\<close>


definition sample_json_load :: "string \<Rightarrow> store option" where
  "sample_json_load text =
     (if text = ''{}'' then Some []
      else if text = bob_file then Some bob_data
      else if text = edited_file then Some [(''A'', [(''Math'', Finite 150)])]
      else None)"

section \<open>Properties\<close>

subsection \<open>Facts about binary64 rounding\<close>

lemma bit_length_eq: "2 ^ k \<le> n \<Longrightarrow> n < 2 ^ Suc k \<Longrightarrow> bit_length n = Suc k"
proof (induction k arbitrary: n)
  case 0
  then have "n = 1" by simp
  then show ?case by (simp add: bit_length.simps)
next
  case (Suc k)
  have "2 ^ k \<le> n div 2" using Suc.prems(1) by simp
  moreover have "n div 2 < 2 ^ Suc k" using Suc.prems(2) by simp
  ultimately have "bit_length (n div 2) = Suc k" by (rule Suc.IH)
  moreover have "(0::nat) < 2 ^ Suc k" by simp
  then have "n \<noteq> 0" using Suc.prems(1) by (cases "n = 0") simp_all
  ultimately show ?case by (subst bit_length.simps) simp
qed

lemma bit_length_bounds: "0 < n \<Longrightarrow> 2 ^ (bit_length n - 1) \<le> n \<and> n < 2 ^ bit_length n"
proof (induction n rule: bit_length.induct)
  case (1 n)
  show ?case
  proof (cases "n div 2 = 0")
    case True
    then have "n = 1" using "1.prems" by (cases "n = 1") auto
    then show ?thesis by (simp add: bit_length.simps)
  next
    case False
    then have ih: "2 ^ (bit_length (n div 2) - 1) \<le> n div 2 \<and> n div 2 < 2 ^ bit_length (n div 2)"
      using "1.IH" "1.prems" by simp
    have b: "bit_length n = Suc (bit_length (n div 2))"
      using "1.prems" by (subst bit_length.simps) simp
    have pos: "0 < bit_length (n div 2)"
      using False by (subst bit_length.simps) simp
    then have "(2::nat) ^ bit_length (n div 2) = 2 * 2 ^ (bit_length (n div 2) - 1)"
      by (cases "bit_length (n div 2)") simp_all
    then have lo: "2 ^ bit_length (n div 2) \<le> n" using ih by linarith
    have hi: "n < 2 * 2 ^ bit_length (n div 2)" using ih by linarith
    from lo hi show ?thesis by (simp add: b)
  qed
qed

lemma pow2_nonneg: "0 \<le> e \<Longrightarrow> pow2 e = 2 ^ nat e"
  by (simp add: pow2_def)

lemma pow2_pos: "0 < pow2 e"
  by (simp add: pow2_def)

lemma pow2_Suc: "pow2 (e + 1) = 2 * pow2 e"
proof (cases "0 \<le> e")
  case True
  then show ?thesis by (simp add: pow2_def nat_add_distrib)
next
  case False
  define k where "k = nat (- e - 1)"
  have a: "nat (- e) = Suc k" using False by (simp add: k_def)
  show ?thesis
  proof (cases "k = 0")
    case True
    then have "e = - 1" using False by (simp add: k_def)
    then show ?thesis by (simp add: pow2_def)
  next
    case nz: False
    then have "e + 1 < 0" and "nat (- (e + 1)) = k" by (simp_all add: k_def)
    then show ?thesis using False a by (simp add: pow2_def)
  qed
qed

lemma floor_log2_bounds:
  assumes "0 < q"
  shows "pow2 (floor_log2 q) \<le> q \<and> q < pow2 (floor_log2 q + 1)"
proof (cases "1 \<le> q")
  case True
  define n where "n = nat \<lfloor>q\<rfloor>"
  have f1: "1 \<le> \<lfloor>q\<rfloor>" using True by simp
  then have npos: "0 < n" by (simp add: n_def)
  have nq: "of_nat n \<le> q" using f1 by (simp add: n_def)
  have qn: "q < of_nat n + 1" using f1 by (simp add: n_def; linarith?)
  from bit_length_bounds [OF npos]
  have lo: "2 ^ (bit_length n - 1) \<le> n" and hi: "n < 2 ^ bit_length n" by simp_all
  have bpos: "0 < bit_length n" using npos by (subst bit_length.simps) simp
  define k where "k = bit_length n - 1"
  have bk: "bit_length n = Suc k" using bpos by (simp add: k_def)
  have e: "floor_log2 q = int k"
    using True by (simp add: floor_log2_def n_def [symmetric] bk)
  have "(2::rat) ^ k \<le> of_nat n" using lo by (simp add: bk)
  then have A: "(2::rat) ^ k \<le> q" using nq by (rule order_trans)
  have "n + 1 \<le> 2 ^ Suc k" using hi by (simp add: bk)
  then have "(of_nat (n + 1) :: rat) \<le> of_nat (2 ^ Suc k)" by (simp only: of_nat_le_iff)
  then have "(of_nat n :: rat) + 1 \<le> 2 ^ Suc k" by simp
  then have B: "q < (2::rat) ^ Suc k" using qn by linarith
  have "pow2 (int k) = 2 ^ k" by (simp add: pow2_def)
  moreover have "pow2 (int k + 1) = 2 ^ Suc k" using pow2_Suc [of "int k"] by (simp add: pow2_def)
  ultimately show ?thesis using A B by (simp only: e)
next
  case False
  define y where "y = 1 / q"
  have y1: "1 < y" using assms False by (simp add: y_def)
  define m where "m = nat (\<lceil>y\<rceil> - 1)"
  have c2: "2 \<le> \<lceil>y\<rceil>" using y1 by (simp add: le_ceiling_iff)
  then have mpos: "0 < m" by (simp add: m_def)
  have my: "of_nat m < y" using c2 by (simp add: m_def; linarith?)
  have ym: "y \<le> of_nat m + 1" using c2 by (simp add: m_def; linarith?)
  from bit_length_bounds [OF mpos]
  have lo: "2 ^ (bit_length m - 1) \<le> m" and hi: "m < 2 ^ bit_length m" by simp_all
  have bpos: "0 < bit_length m" using mpos by (subst bit_length.simps) simp
  define k where "k = bit_length m - 1"
  have bk: "bit_length m = Suc k" using bpos by (simp add: k_def)
  have e: "floor_log2 q = - int (Suc k)"
    using False by (simp add: floor_log2_def m_def [symmetric] y_def [symmetric] bk)
  have "(2::rat) ^ k \<le> of_nat m" using lo by (simp add: bk)
  then have A: "(2::rat) ^ k < y" using my by (rule le_less_trans)
  have "m + 1 \<le> 2 ^ Suc k" using hi by (simp add: bk)
  then have "(of_nat (m + 1) :: rat) \<le> of_nat (2 ^ Suc k)" by (simp only: of_nat_le_iff)
  then have "(of_nat m :: rat) + 1 \<le> 2 ^ Suc k" by simp
  then have B: "y \<le> (2::rat) ^ Suc k" using ym by linarith
  have lower: "1 / 2 ^ Suc k \<le> q"
    using B assms by (simp add: y_def field_simps)
  have upper: "q < 1 / 2 ^ k"
    using A assms by (simp add: y_def field_simps)
  have p1: "pow2 (- int (Suc k)) = 1 / 2 ^ Suc k" by (simp add: pow2_def del: of_nat_Suc)
  have "pow2 (- int (Suc k) + 1) = 2 * pow2 (- int (Suc k))" by (rule pow2_Suc)
  then have "pow2 (- int (Suc k) + 1) = 2 * (1 / 2 ^ Suc k)" by (simp only: p1)
  also have "\<dots> = 1 / 2 ^ k" by simp
  finally have p2: "pow2 (- int (Suc k) + 1) = 1 / 2 ^ k" .
  show ?thesis using lower upper by (simp only: e p1 p2)
qed

lemma floor_log2_eq:
  assumes "pow2 e \<le> q" and "q < pow2 (e + 1)"
  shows "floor_log2 q = e"
proof -
  have qpos: "0 < q" using assms(1) pow2_pos [of e] by simp
  define f where "f = floor_log2 q"
  from floor_log2_bounds [OF qpos]
  have lo: "pow2 f \<le> q" and hi: "q < pow2 (f + 1)" by (simp_all add: f_def)
  have mono: "pow2 a \<le> pow2 b" if "a \<le> b" for a b
  proof -
    define d where "d = nat (b - a)"
    have "b = a + int d" using that by (simp add: d_def)
    moreover have "pow2 a \<le> pow2 (a + int d)"
    proof (induction d)
      case 0
      show ?case by simp
    next
      case (Suc d)
      have "pow2 (a + int (Suc d)) = 2 * pow2 (a + int d)"
        using pow2_Suc [of "a + int d"] by (simp add: ac_simps)
      then show ?case using Suc pow2_pos [of "a + int d"] by linarith
    qed
    ultimately show ?thesis by simp
  qed
  have "\<not> f < e"
  proof
    assume "f < e"
    then have "pow2 (f + 1) \<le> pow2 e" by (intro mono) simp
    then show False using hi assms(1) by linarith
  qed
  moreover have "\<not> e < f"
  proof
    assume "e < f"
    then have "pow2 (e + 1) \<le> pow2 f" by (intro mono) simp
    then show False using lo assms(2) by linarith
  qed
  ultimately show ?thesis by (simp add: f_def)
qed

lemma round_half_even_near:
  assumes "\<bar>x - of_int n\<bar> < 1 / 2"
  shows "round_half_even x = n"
proof -
  have lo: "of_int n - 1 / 2 < x" and hi: "x < of_int n + 1 / 2" using assms by linarith+
  show ?thesis
  proof (cases "of_int n \<le> x")
    case True
    then have "\<lfloor>x\<rfloor> = n" using hi by linarith
    then show ?thesis using hi by (simp add: round_half_even_def Let_def)
  next
    case False
    then have f: "\<lfloor>x\<rfloor> = n - 1" using lo by linarith
    have "1 / 2 < x - of_int (n - 1)" using lo by simp
    then show ?thesis using f by (simp add: round_half_even_def Let_def)
  qed
qed

lemma round_half_even_tie:
  assumes "x = of_int n + 1 / 2"
  shows "round_half_even x = (if even n then n else n + 1)"
proof -
  have "\<lfloor>x\<rfloor> = n" using assms by linarith
  then show ?thesis using assms by (simp add: round_half_even_def Let_def)
qed

lemma round_half_even_cases:
  "\<bar>x - of_int (round_half_even x)\<bar> < 1 / 2 \<or> x = of_int \<lfloor>x\<rfloor> + 1 / 2"
proof -
  define d where "d = x - of_int \<lfloor>x\<rfloor>"
  have d: "0 \<le> d" "d < 1" by (simp_all add: d_def) linarith
  consider "d < 1 / 2" | "1 / 2 < d" | "d = 1 / 2" by linarith
  then show ?thesis
  proof cases
    case 1
    then have "round_half_even x = \<lfloor>x\<rfloor>" by (simp add: round_half_even_def Let_def d_def)
    then show ?thesis using 1 d by (simp add: d_def)
  next
    case 2
    then have "round_half_even x = \<lfloor>x\<rfloor> + 1" by (simp add: round_half_even_def Let_def d_def)
    then show ?thesis using 2 d by (simp add: d_def; linarith?)
  next
    case 3
    then show ?thesis by (simp add: d_def)
  qed
qed

lemma round_half_even_uminus: "round_half_even (- x) = - round_half_even x"
proof -
  from round_half_even_cases [of x] show ?thesis
  proof
    assume "\<bar>x - of_int (round_half_even x)\<bar> < 1 / 2"
    then have "\<bar>- x - of_int (- round_half_even x)\<bar> < 1 / 2" by (simp add: abs_minus_commute)
    then show ?thesis by (rule round_half_even_near)
  next
    assume t: "x = of_int \<lfloor>x\<rfloor> + 1 / 2"
    define n where "n = \<lfloor>x\<rfloor>"
    have x: "x = of_int n + 1 / 2" using t by (simp add: n_def)
    then have "- x = of_int (- n - 1) + 1 / 2" by simp
    then have "round_half_even (- x) = (if even (- n - 1) then - n - 1 else - n - 1 + 1)"
      by (rule round_half_even_tie)
    moreover have "round_half_even x = (if even n then n else n + 1)"
      using x by (rule round_half_even_tie)
    ultimately show ?thesis by simp
  qed
qed

lemma fl_eq:
  assumes "pow2 e \<le> \<bar>q\<bar>" and "\<bar>q\<bar> < pow2 (e + 1)"
    and "p = max (e - 52) (- 1074)"
    and "round_half_even (q / pow2 p) = n"
    and "\<bar>of_int n * pow2 p\<bar> < 2 ^ 1024"
  shows "fl q = Finite (of_int n * pow2 p)"
proof -
  have "q \<noteq> 0" using assms(1) pow2_pos [of e] by auto
  moreover have "floor_log2 \<bar>q\<bar> = e" using assms(1,2) by (rule floor_log2_eq)
  moreover have "\<not> 2 ^ 1024 \<le> of_int n * pow2 p" and "\<not> of_int n * pow2 p \<le> - (2 ^ 1024)"
    using assms(5) by linarith+
  ultimately show ?thesis using assms(3,4) by (simp add: fl_def Let_def)
qed

lemma fl_uminus: "fl (- q) = py_neg (fl q)"
proof (cases "q = 0")
  case True
  then show ?thesis by (simp add: fl_def)
next
  case False
  define p where "p = max (floor_log2 \<bar>q\<bar> - 52) (- 1074)"
  define r where "r = of_int (round_half_even (q / pow2 p)) * pow2 p"
  have "of_int (round_half_even (- q / pow2 p)) * pow2 p = - r"
    using round_half_even_uminus [of "q / pow2 p"] by (simp add: r_def)
  then have neg: "fl (- q) = (if 2 ^ 1024 \<le> - r then PosInf
      else if - r \<le> - (2 ^ 1024) then NegInf else Finite (- r))"
    using False by (simp add: fl_def Let_def p_def)
  have pos: "fl q = (if 2 ^ 1024 \<le> r then PosInf
      else if r \<le> - (2 ^ 1024) then NegInf else Finite r)"
    using False by (simp add: fl_def Let_def p_def r_def)
  have z: "(0::rat) < 2 ^ 1024" by simp
  show ?thesis
  proof (cases "2 ^ 1024 \<le> r")
    case True
    then have "\<not> 2 ^ 1024 \<le> - r" and "- r \<le> - (2 ^ 1024)" using z by linarith+
    then show ?thesis using True by (simp only: neg pos if_True if_False py_neg.simps)
  next
    case hi: False
    show ?thesis
    proof (cases "r \<le> - (2 ^ 1024)")
      case True
      then have "2 ^ 1024 \<le> - r" by linarith
      then show ?thesis using True hi by (simp only: neg pos if_True if_False py_neg.simps)
    next
      case False
      then have "\<not> 2 ^ 1024 \<le> - r" and "\<not> - r \<le> - (2 ^ 1024)" using hi by linarith+
      then show ?thesis using False hi by (simp only: neg pos if_True if_False py_neg.simps)
    qed
  qed
qed

lemma is_double_uminus: "is_double q \<Longrightarrow> is_double (- q)"
  by (simp add: is_double_def fl_uminus)

lemma fl_zero: "fl 0 = Finite 0"
  by (simp add: fl_def)

text \<open>The float of a positive count is not zero, so dividing by it does not raise.\<close>

lemma fl_of_nat_nonzero:
  assumes "0 < n"
  shows "fl (of_nat n) \<noteq> Finite 0"
proof -
  define q :: rat where "q = of_nat n"
  have q1: "1 \<le> q" using assms by (simp add: q_def)
  define e where "e = floor_log2 \<bar>q\<bar>"
  have b: "pow2 e \<le> q" "q < pow2 (e + 1)"
    using floor_log2_bounds [of "\<bar>q\<bar>"] q1 by (simp_all add: e_def)
  have e0: "0 \<le> e"
  proof (rule ccontr)
    assume "\<not> 0 \<le> e"
    then have "e + 1 \<le> 0" by simp
    then have "pow2 (e + 1) \<le> 1" by (cases "e + 1 = 0") (simp_all add: pow2_def)
    then show False using b(2) q1 by linarith
  qed
  define p where "p = max (e - 52) (- 1074)"
  have p: "p = e - 52" using e0 by (simp add: p_def)
  have "pow2 (p + 52) = 2 ^ 52 * pow2 p"
  proof -
    have "pow2 (p + int k) = 2 ^ k * pow2 p" for k
    proof (induction k)
      case 0
      show ?case by simp
    next
      case (Suc k)
      have "pow2 (p + int (Suc k)) = 2 * pow2 (p + int k)"
        using pow2_Suc [of "p + int k"] by (simp add: ac_simps)
      then show ?case using Suc by simp
    qed
    from this [of 52] show ?thesis by simp
  qed
  then have "2 ^ 52 * pow2 p \<le> q" using b(1) by (simp add: p)
  then have big: "2 ^ 52 \<le> q / pow2 p" using pow2_pos [of p] by (simp add: field_simps)
  define x where "x = q / pow2 p"
  have "\<bar>x - of_int (round_half_even x)\<bar> \<le> 1 / 2"
    using round_half_even_cases [of x]
  proof
    assume "\<bar>x - of_int (round_half_even x)\<bar> < 1 / 2"
    then show ?thesis by simp
  next
    assume t: "x = of_int \<lfloor>x\<rfloor> + 1 / 2"
    define m where "m = \<lfloor>x\<rfloor>"
    have xm: "x = of_int m + 1 / 2" using t by (simp add: m_def)
    then have "round_half_even x = (if even m then m else m + 1)"
      by (rule round_half_even_tie)
    then have "x - of_int (round_half_even x) = 1 / 2 \<or> x - of_int (round_half_even x) = - (1 / 2)"
      by (cases "even m") (simp_all add: xm)
    then show ?thesis by auto
  qed
  then have "x - 1 / 2 \<le> of_int (round_half_even x)" by linarith
  moreover have "1 \<le> x" using big by (simp add: x_def) 
  ultimately have "(0::rat) < of_int (round_half_even x)" by linarith
  then have rpos: "0 < of_int (round_half_even (q / pow2 p)) * pow2 p"
    using pow2_pos [of p] by (simp add: x_def)
  have "q \<noteq> 0" using q1 by auto
  then have "fl q = (let r = of_int (round_half_even (q / pow2 p)) * pow2 p
      in if 2 ^ 1024 \<le> r then PosInf else if r \<le> - (2 ^ 1024) then NegInf else Finite r)"
    by (simp add: fl_def Let_def p_def e_def)
  then show ?thesis using rpos by (auto simp add: Let_def q_def split: if_splits)
qed

lemma pow2_add_nat: "pow2 (p + int k) = 2 ^ k * pow2 p"
proof (induction k)
  case 0
  show ?case by simp
next
  case (Suc k)
  have "pow2 (p + int (Suc k)) = 2 * pow2 (p + int k)"
    using pow2_Suc [of "p + int k"] by (simp add: ac_simps)
  then show ?case using Suc by simp
qed

lemma pow2_mono: "a \<le> b \<Longrightarrow> pow2 a \<le> pow2 b"
proof -
  assume "a \<le> b"
  then have "b = a + int (nat (b - a))" by simp
  then have "pow2 b = 2 ^ nat (b - a) * pow2 a" using pow2_add_nat [of a "nat (b - a)"] by simp
  moreover have "(1::rat) \<le> 2 ^ nat (b - a)" by simp
  ultimately show ?thesis using pow2_pos [of a] by (simp add: mult_le_cancel_right1)
qed

text \<open>A multiple of \<open>2\<^sup>p\<close>, \<open>p \<ge> -1074\<close>, with a multiplier below \<open>2\<^sup>5\<^sup>3\<close> is a double.\<close>

lemma is_double_criterion:
  assumes "q = of_int m * pow2 p'" and "- 1074 \<le> p'" and "\<bar>m\<bar> < 2 ^ 53" and "\<bar>q\<bar> < 2 ^ 1024"
  shows "is_double q"
proof (cases "q = 0")
  case True
  then show ?thesis by (simp add: is_double_def fl_def)
next
  case False
  define e where "e = floor_log2 \<bar>q\<bar>"
  define p where "p = max (e - 52) (- 1074)"
  have b: "pow2 e \<le> \<bar>q\<bar>" using floor_log2_bounds [of "\<bar>q\<bar>"] False by (simp add: e_def)
  have "\<bar>q\<bar> = of_int \<bar>m\<bar> * pow2 p'"
    using pow2_pos [of p'] by (simp add: assms(1) abs_mult)
  moreover have "(of_int \<bar>m\<bar> :: rat) < of_int (2 ^ 53)" using assms(3) by (simp only: of_int_less_iff)
  ultimately have "\<bar>q\<bar> < 2 ^ 53 * pow2 p'" using pow2_pos [of p'] by simp
  then have "\<bar>q\<bar> < pow2 (p' + 53)" using pow2_add_nat [of p' 53] by simp
  then have lt: "pow2 e < pow2 (p' + 53)" using b by linarith
  have "e < p' + 53"
  proof (rule ccontr)
    assume "\<not> e < p' + 53"
    then have "pow2 (p' + 53) \<le> pow2 e" by (intro pow2_mono) simp
    then show False using lt by linarith
  qed
  then have pp: "p \<le> p'" using assms(2) by (simp add: p_def)
  define k where "k = nat (p' - p)"
  have "p' = p + int k" using pp by (simp add: k_def)
  then have "pow2 p' = 2 ^ k * pow2 p" using pow2_add_nat [of p k] by simp
  then have qn: "q = of_int (m * 2 ^ k) * pow2 p" by (simp add: assms(1))
  then have "q / pow2 p = of_int (m * 2 ^ k)" using pow2_pos [of p] by simp
  then have "round_half_even (q / pow2 p) = m * 2 ^ k"
    by (intro round_half_even_near) simp
  then have r: "of_int (round_half_even (q / pow2 p)) * pow2 p = q" using qn by simp
  have "\<not> 2 ^ 1024 \<le> q" and "\<not> q \<le> - (2 ^ 1024)" using assms(4) by linarith+
  then show ?thesis
    using False r by (simp add: is_double_def fl_def Let_def p_def [symmetric] e_def [symmetric])
qed

lemma is_double_int: "\<bar>k\<bar> < 2 ^ 53 \<Longrightarrow> is_double (of_int k)"
proof -
  assume a: "\<bar>k\<bar> < 2 ^ 53"
  then have "(of_int \<bar>k\<bar> :: rat) < of_int (2 ^ 53)" by (simp only: of_int_less_iff)
  then have "\<bar>of_int k :: rat\<bar> < 2 ^ 53" by simp
  moreover have "(2::rat) ^ 53 < 2 ^ 1024" by simp
  ultimately have "\<bar>of_int k :: rat\<bar> < 2 ^ 1024" by linarith
  then show ?thesis using a by (intro is_double_criterion [where m = k and p' = 0]) (simp_all add: pow2_def)
qed

lemma is_double_80: "is_double 80" using is_double_int [of 80] by simp
lemma is_double_90: "is_double 90" using is_double_int [of 90] by simp
lemma is_double_170: "is_double 170" using is_double_int [of 170] by simp
lemma is_double_85: "is_double 85" using is_double_int [of 85] by simp
lemma is_double_2: "is_double 2" using is_double_int [of 2] by simp

lemma round_half_even_bound: "\<bar>of_int (round_half_even x) - x\<bar> \<le> 1 / 2"
proof -
  from round_half_even_cases [of x] show ?thesis
  proof
    assume "\<bar>x - of_int (round_half_even x)\<bar> < 1 / 2"
    then show ?thesis by linarith
  next
    assume t: "x = of_int \<lfloor>x\<rfloor> + 1 / 2"
    define m where "m = \<lfloor>x\<rfloor>"
    have xm: "x = of_int m + 1 / 2" using t by (simp add: m_def)
    then have "round_half_even x = (if even m then m else m + 1)"
      by (rule round_half_even_tie)
    then have "of_int (round_half_even x) - x = - (1 / 2) \<or> of_int (round_half_even x) - x = 1 / 2"
      by (cases "even m") (simp_all add: xm)
    then show ?thesis by auto
  qed
qed

text \<open>The rounded value is within half a unit in the last place of the argument.\<close>

lemma fl_error:
  assumes "fl q = Finite r"
  shows "\<bar>r - q\<bar> \<le> pow2 (max (floor_log2 \<bar>q\<bar> - 52) (- 1074)) / 2"
proof (cases "q = 0")
  case True
  then have "r = 0" using assms by (simp add: fl_def)
  then show ?thesis using True pow2_pos [of "max (floor_log2 \<bar>q\<bar> - 52) (- 1074)"] by simp
next
  case False
  define p where "p = max (floor_log2 \<bar>q\<bar> - 52) (- 1074)"
  define n where "n = round_half_even (q / pow2 p)"
  have "fl q = (if 2 ^ 1024 \<le> of_int n * pow2 p then PosInf
      else if of_int n * pow2 p \<le> - (2 ^ 1024) then NegInf else Finite (of_int n * pow2 p))"
    using False by (simp add: fl_def Let_def p_def n_def)
  then have r: "r = of_int n * pow2 p" using assms by (simp split: if_splits)
  have "r - q = (of_int n - q / pow2 p) * pow2 p"
    using pow2_pos [of p] by (simp add: r field_simps)
  then have "\<bar>r - q\<bar> = \<bar>of_int n - q / pow2 p\<bar> * pow2 p"
    using pow2_pos [of p] by (simp add: abs_mult)
  also have "\<dots> \<le> 1 / 2 * pow2 p"
    using round_half_even_bound [of "q / pow2 p"] pow2_pos [of p]
    by (intro mult_right_mono) (simp_all add: n_def)
  finally show ?thesis by (simp add: p_def)
qed

text \<open>The rounded value is a double: rounding it again changes nothing.\<close>

lemma fl_is_double:
  assumes "fl q = Finite r"
  shows "is_double r"
proof (cases "q = 0")
  case True
  then have "r = 0" using assms by (simp add: fl_def)
  then show ?thesis by (simp add: is_double_def fl_def)
next
  case False
  define e where "e = floor_log2 \<bar>q\<bar>"
  define p where "p = max (e - 52) (- 1074)"
  define n where "n = round_half_even (q / pow2 p)"
  have "fl q = (if 2 ^ 1024 \<le> of_int n * pow2 p then PosInf
      else if of_int n * pow2 p \<le> - (2 ^ 1024) then NegInf else Finite (of_int n * pow2 p))"
    using False by (simp add: fl_def Let_def p_def n_def e_def)
  then have r: "r = of_int n * pow2 p" and small: "\<bar>r\<bar> < 2 ^ 1024"
    using assms by (auto split: if_splits)
  have "\<bar>q\<bar> < pow2 (e + 1)" using floor_log2_bounds [of "\<bar>q\<bar>"] False by (simp add: e_def)
  moreover have "pow2 (e + 1) \<le> pow2 (p + 53)" by (intro pow2_mono) (simp add: p_def)
  moreover have "pow2 (p + 53) = 2 ^ 53 * pow2 p" using pow2_add_nat [of p 53] by simp
  ultimately have "\<bar>q\<bar> < 2 ^ 53 * pow2 p" by linarith
  then have "\<bar>q\<bar> / pow2 p < 2 ^ 53" using pow2_pos [of p] by (simp add: field_simps)
  then have x: "\<bar>q / pow2 p\<bar> < 2 ^ 53" using pow2_pos [of p] by simp
  have "\<bar>(of_int n :: rat)\<bar> \<le> \<bar>q / pow2 p\<bar> + 1 / 2"
    using round_half_even_bound [of "q / pow2 p"] unfolding n_def by linarith
  then have "\<bar>(of_int n :: rat)\<bar> < 2 ^ 53 + 1" using x by linarith
  then have "(of_int \<bar>n\<bar> :: rat) < of_int (2 ^ 53 + 1)" by simp
  then have "\<bar>n\<bar> < 2 ^ 53 + 1" by (simp only: of_int_less_iff)
  then have nb: "\<bar>n\<bar> \<le> 2 ^ 53" by simp
  have pl: "- 1074 \<le> p" by (simp add: p_def)
  show ?thesis
  proof (cases "\<bar>n\<bar> < 2 ^ 53")
    case True
    from r pl True small show ?thesis by (rule is_double_criterion)
  next
    case False
    then have "\<bar>n\<bar> = 2 ^ 53" using nb by linarith
    then consider "n = 2 ^ 53" | "n = - (2 ^ 53)" by linarith
    then obtain m :: int where m: "\<bar>m\<bar> < 2 ^ 53" and nm: "(of_int n :: rat) = of_int m * 2"
    proof cases
      case 1
      have "\<bar>2 ^ 52 :: int\<bar> < 2 ^ 53" by simp
      moreover have "(of_int n :: rat) = of_int (2 ^ 52) * 2" by (simp add: 1)
      ultimately show ?thesis by (rule that)
    next
      case 2
      have "\<bar>- (2 ^ 52) :: int\<bar> < 2 ^ 53" by simp
      moreover have "(of_int n :: rat) = of_int (- (2 ^ 52)) * 2" by (simp add: 2)
      ultimately show ?thesis by (rule that)
    qed
    have "r = of_int m * (2 * pow2 p)" by (simp add: r nm)
    then have "r = of_int m * pow2 (p + 1)" by (simp add: pow2_Suc)
    moreover have "- 1074 \<le> p + 1" using pl by simp
    ultimately show ?thesis using m small by (rule is_double_criterion)
  qed
qed

subsection \<open>Sums and means without rounding error\<close>

lemma naive_sum_exact:
  "partial_sums_exact acc qs \<Longrightarrow>
     foldl py_add (Finite acc) (map Finite qs) = Finite (acc + sum_list qs)"
proof (induction qs arbitrary: acc)
  case Nil
  show ?case by simp
next
  case (Cons q qs)
  have "py_add (Finite acc) (Finite q) = Finite (acc + q)"
    using Cons.prems by (simp add: is_double_def)
  moreover have "foldl py_add (Finite (acc + q)) (map Finite qs) = Finite (acc + q + sum_list qs)"
    using Cons.prems by (intro Cons.IH) simp
  ultimately show ?case by (simp add: add.assoc)
qed

lemma neumaier_sum_exact:
  "is_double acc \<Longrightarrow> partial_sums_exact acc qs \<Longrightarrow>
     neumaier_loop (Finite acc) (Finite 0) (map Finite qs) = Finite (acc + sum_list qs)"
proof (induction qs arbitrary: acc)
  case Nil
  show ?case by simp
next
  case (Cons q qs)
  have dq: "is_double q" and ds: "is_double (acc + q)" and rest: "partial_sums_exact (acc + q) qs"
    using Cons.prems(2) by simp_all
  have t: "py_add (Finite acc) (Finite q) = Finite (acc + q)"
    using ds by (simp add: is_double_def)
  have z: "py_add (Finite 0) (Finite 0) = Finite 0" by (simp add: fl_zero)
  have "fl (- q) = Finite (- q)" using is_double_uminus [OF dq] by (simp add: is_double_def)
  then have "py_sub (Finite acc) (Finite (acc + q)) = Finite (- q)"
    by (simp add: py_sub_def)
  then have c1: "py_add (py_sub (Finite acc) (Finite (acc + q))) (Finite q) = Finite 0"
    by (simp add: fl_zero)
  have "fl (- acc) = Finite (- acc)"
    using is_double_uminus [OF Cons.prems(1)] by (simp add: is_double_def)
  then have "py_sub (Finite q) (Finite (acc + q)) = Finite (- acc)"
    by (simp add: py_sub_def)
  then have c2: "py_add (py_sub (Finite q) (Finite (acc + q))) (Finite acc) = Finite 0"
    by (simp add: fl_zero)
  have "neumaier_loop (Finite acc) (Finite 0) (map Finite (q # qs))
      = neumaier_loop (Finite (acc + q)) (Finite 0) (map Finite qs)"
    using ds by (simp add: is_double_def c1 c2 fl_zero Let_def)
  also have "\<dots> = Finite (acc + q + sum_list qs)"
    using ds rest by (rule Cons.IH)
  finally show ?case by (simp add: add.assoc)
qed

lemma py_sum_exact:
  assumes "partial_sums_exact 0 qs"
  shows "py_sum alg (map Finite qs) = Finite (sum_list qs)"
proof (cases alg)
  case Naive
  then show ?thesis using naive_sum_exact [OF assms] by simp
next
  case Neumaier
  show ?thesis
  proof (cases qs)
    case Nil
    then show ?thesis using Neumaier by simp
  next
    case (Cons q rest)
    have dq: "is_double q" and r: "partial_sums_exact q rest"
      using assms Cons by simp_all
    have "py_add (Finite 0) (Finite q) = Finite q" using dq by (simp add: is_double_def)
    then have "py_sum Neumaier (map Finite qs) = neumaier_loop (Finite q) (Finite 0) (map Finite rest)"
      using Cons by simp
    also have "\<dots> = Finite (q + sum_list rest)" using dq r by (rule neumaier_sum_exact)
    finally show ?thesis using Cons Neumaier by simp
  qed
qed

lemma py_truediv_positive:
  assumes "0 < n"
  shows "\<exists>m. py_truediv x n = Inr m"
proof (cases "fl (of_nat n)")
  case (Finite b)
  then have "b \<noteq> 0" using fl_of_nat_nonzero [OF assms] by auto
  then show ?thesis using Finite by (simp add: py_truediv_def)
next
  case PosInf
  then show ?thesis by (cases x) (simp_all add: py_truediv_def)
next
  case NegInf
  then show ?thesis by (cases x) (simp_all add: py_truediv_def)
next
  case NaN
  then show ?thesis by (simp add: py_truediv_def)
qed

lemma mean_exact:
  assumes "exactly_summable qs" and "qs \<noteq> []"
  shows "py_truediv (py_sum alg (map Finite qs)) (length qs) = Inr (Finite (exact_mean qs))"
proof -
  have s: "py_sum alg (map Finite qs) = Finite (sum_list qs)"
    using assms(1) by (intro py_sum_exact) (simp add: exactly_summable_def)
  have n: "fl (of_nat (length qs)) = Finite (of_nat (length qs))"
    using assms(1) by (simp add: exactly_summable_def is_double_def)
  have "fl (sum_list qs / of_nat (length qs)) = Finite (exact_mean qs)"
    using assms(1) by (simp add: exactly_summable_def is_double_def exact_mean_def)
  then show ?thesis using assms(2) by (simp add: py_truediv_def s n)
qed

lemma class_totals_scores:
  "class_totals subject student_data (acc, cnt) =
     (foldl py_add acc (subject_scores subject student_data),
      cnt + length (subject_scores subject student_data))"
proof (induction student_data arbitrary: acc cnt)
  case Nil
  show ?case by simp
next
  case (Cons entry rest)
  obtain name subjects where e: "entry = (name, subjects)" by (cases entry)
  show ?case by (cases "map_of subjects subject") (simp_all add: e Cons.IH)
qed

lemma subject_scores_empty:
  "subject_scores subject student_data = [] \<longleftrightarrow>
     (\<forall>entry \<in> set student_data. map_of (snd entry) subject = None)"
proof (induction student_data)
  case Nil
  show ?case by simp
next
  case (Cons entry rest)
  obtain name subjects where e: "entry = (name, subjects)" by (cases entry)
  show ?case by (cases "map_of subjects subject") (simp_all add: e Cons.IH)
qed

subsection \<open>Concrete roundings\<close>

lemma fl_0_01: "fl (1 / 100) = Finite double_0_01"
  using fl_eq [of "- 7" "1 / 100" "- 59" 5764607523034235]
  by (simp add: pow2_def round_half_even_near double_0_01_def)

lemma fl_0_02: "fl (2 / 100) = Finite double_0_02"
  using fl_eq [of "- 6" "2 / 100" "- 58" 5764607523034235]
  by (simp add: pow2_def round_half_even_near double_0_02_def)

lemma is_double_0_01: "fl double_0_01 = Finite double_0_01"
  using is_double_criterion [of double_0_01 5764607523034235 "- 59"]
  by (simp add: pow2_def double_0_01_def is_double_def)

lemma is_double_0_02: "fl double_0_02 = Finite double_0_02"
  using is_double_criterion [of double_0_02 5764607523034235 "- 58"]
  by (simp add: pow2_def double_0_02_def is_double_def)

text \<open>The sum of the two doubles lies half-way between two doubles: the even one is taken.\<close>

lemma fl_cents_sum: "fl (double_0_01 + double_0_02) = Finite (8646911284551352 / 2 ^ 58)"
  using fl_eq [of "- 6" "double_0_01 + double_0_02" "- 58" 8646911284551352]
    round_half_even_tie [of "17293822569102705 / 2" 8646911284551352]
  by (simp add: pow2_def double_0_01_def double_0_02_def)

lemma fl_2: "fl 2 = Finite 2"
  using is_double_2 by (simp add: is_double_def)

lemma fl_cents_mean: "fl (8646911284551352 / 2 ^ 58 / 2) = Finite (8646911284551352 / 2 ^ 59)"
  using is_double_criterion [of "8646911284551352 / 2 ^ 59" 8646911284551352 "- 59"]
  by (simp add: pow2_def is_double_def)

lemma round_cents_mean: "round_half_even (8646911284551352 / 2 ^ 59 * 100) = 1"
  by (rule round_half_even_near) simp

lemma py_round2_cents_mean: "py_round2 (Finite (8646911284551352 / 2 ^ 59)) = Finite double_0_01"
  using fl_0_01 by (simp only: py_round2.simps round_cents_mean) simp

lemma truediv_cents:
  "py_truediv (Finite (8646911284551352 / 2 ^ 58)) 2 = Inr (Finite (8646911284551352 / 2 ^ 59))"
  using fl_cents_mean by (simp add: py_truediv_def fl_2)

lemma naive_cents: "py_sum Naive [Finite double_0_01, Finite double_0_02] = Finite (8646911284551352 / 2 ^ 58)"
  by (simp add: is_double_0_01 fl_cents_sum)

text \<open>Neumaier's loop on the two doubles: the compensation is \<open>2\<^sup>-\<^sup>5\<^sup>9\<close>, and adding it falls on the same tie.\<close>

lemma neumaier_step1: "fl (double_0_02 - 8646911284551352 / 2 ^ 58) = Finite (- 5764607523034234 / 2 ^ 59)"
  using is_double_criterion [of "- 5764607523034234 / 2 ^ 59" "- 5764607523034234" "- 59"]
  by (simp add: pow2_def is_double_def double_0_02_def)

lemma neumaier_step2: "fl (- 5764607523034234 / 2 ^ 59 + double_0_01) = Finite (1 / 2 ^ 59)"
  using is_double_criterion [of "1 / 2 ^ 59" 1 "- 59"]
  by (simp add: pow2_def is_double_def double_0_01_def)

lemma neumaier_step3: "fl (1 / 2 ^ 59) = Finite (1 / 2 ^ 59)"
  using is_double_criterion [of "1 / 2 ^ 59" 1 "- 59"]
  by (simp add: pow2_def is_double_def)

lemma neumaier_step4: "fl (8646911284551352 / 2 ^ 58 + 1 / 2 ^ 59) = Finite (8646911284551352 / 2 ^ 58)"
  using fl_eq [of "- 6" "8646911284551352 / 2 ^ 58 + 1 / 2 ^ 59" "- 58" 8646911284551352]
    round_half_even_tie [of "17293822569102705 / 2" 8646911284551352]
  by (simp add: pow2_def)

lemma neumaier_cents:
  "py_sum Neumaier [Finite double_0_01, Finite double_0_02] = Finite (8646911284551352 / 2 ^ 58)"
proof -
  have a: "py_add (Finite 0) (Finite double_0_01) = Finite double_0_01"
    by (simp add: is_double_0_01)
  have t: "py_add (Finite double_0_01) (Finite double_0_02) = Finite (8646911284551352 / 2 ^ 58)"
    by (simp add: fl_cents_sum)
  have le: "\<not> py_le (py_abs (Finite double_0_02)) (py_abs (Finite double_0_01))"
    by (simp add: double_0_01_def double_0_02_def)
  have s1: "py_sub (Finite double_0_02) (Finite (8646911284551352 / 2 ^ 58))
      = Finite (- 5764607523034234 / 2 ^ 59)"
    using neumaier_step1 by (simp add: py_sub_def)
  have s2: "py_add (Finite (- 5764607523034234 / 2 ^ 59)) (Finite double_0_01) = Finite (1 / 2 ^ 59)"
    using neumaier_step2 by simp
  have s3: "py_add (Finite 0) (Finite (1 / 2 ^ 59)) = Finite (1 / 2 ^ 59)"
    using neumaier_step3 by simp
  have s4: "py_add (Finite (8646911284551352 / 2 ^ 58)) (Finite (1 / 2 ^ 59))
      = Finite (8646911284551352 / 2 ^ 58)"
    using neumaier_step4 by simp
  have nz: "Finite (1 / 2 ^ 59) \<noteq> Finite 0" by simp
  have "neumaier_loop (Finite double_0_01) (Finite 0) [Finite double_0_02]
      = neumaier_loop (Finite (8646911284551352 / 2 ^ 58)) (Finite (1 / 2 ^ 59)) []"
    by (simp only: neumaier_loop.simps Let_def t le if_False s1 s2 s3)
  also have "\<dots> = Finite (8646911284551352 / 2 ^ 58)"
    by (simp only: neumaier_loop.simps nz is_finite.simps simp_thms if_True s4)
  finally show ?thesis by (simp only: py_sum.simps a)
qed

lemma cents_float_average:
  "calculate_average_grade alg cents_data ''Ann'' = Inr (Average (Finite double_0_01))"
proof -
  have s: "py_sum alg [Finite double_0_01, Finite double_0_02] = Finite (8646911284551352 / 2 ^ 58)"
    using naive_cents neumaier_cents by (cases alg) simp_all
  have "map_of cents_data ''Ann'' = Some [(''Math'', Finite double_0_01), (''Art'', Finite double_0_02)]"
    by (simp add: cents_data_def)
  then show ?thesis
    using truediv_cents py_round2_cents_mean
    by (simp add: calculate_average_grade_def s numeral_2_eq_2 del: py_round2.simps)
qed

subsection \<open>Facts about association lists\<close>

lemma update_new_key: "map_of al k = None \<Longrightarrow> AList.update k v al = al @ [(k, v)]"
  by (induct al) (auto split: if_splits)

lemma update_old_key:
  "map_of al k \<noteq> None \<Longrightarrow>
     length (AList.update k v al) = length al \<and> map fst (AList.update k v al) = map fst al"
  by (induct al) auto

lemma update_keeps_keys:
  "map_of al k = Some w \<Longrightarrow> map fst (AList.update k v al) = map fst al"
  using update_old_key [of al k v] by simp

lemma delete_is_filter: "AList.delete k al = filter (\<lambda>entry. fst entry \<noteq> k) al"
  by (induct al) auto

lemma delete_one_entry:
  "distinct (map fst al) \<Longrightarrow> map_of al k \<noteq> None \<Longrightarrow> Suc (length (AList.delete k al)) = length al"
proof (induct al)
  case Nil
  then show ?case by simp
next
  case (Cons p ps)
  show ?case
  proof (cases "fst p = k")
    case True
    then have "k \<notin> fst ` set ps" using Cons.prems(1) by auto
    then have "AList.delete k ps = ps" by simp
    then show ?thesis using True by (cases p) simp
  next
    case False
    then have "map_of ps k \<noteq> None" using Cons.prems(2) by (cases p) auto
    then show ?thesis using Cons False by (cases p) auto
  qed
qed

subsection \<open>Adding a student\<close>

text \<open>
  Claim C7. \<^verbatim>\<open>add_student\<close> on a name that is present reports the duplicate and returns the
  store as it was; on a name that is absent it appends the name with an empty grade
  mapping, after which the list of students contains the name exactly once.
\<close>

theorem add_student_cases:
  "(map_of student_data name \<noteq> None \<longrightarrow>
      add_student student_data name = (student_data, DuplicateStudent name))
   \<and> (map_of student_data name = None \<longrightarrow>
      add_student student_data name = (student_data @ [(name, [])], StudentAdded name)
      \<and> map_of (fst (add_student student_data name)) name = Some []
      \<and> count_list (list_students (fst (add_student student_data name))) name = 1)"
proof (intro conjI impI)
  assume "map_of student_data name \<noteq> None"
  then show "add_student student_data name = (student_data, DuplicateStudent name)"
    by (simp add: add_student_def)
next
  assume absent: "map_of student_data name = None"
  then show eq: "add_student student_data name = (student_data @ [(name, [])], StudentAdded name)"
    by (simp add: add_student_def update_new_key)
  show "map_of (fst (add_student student_data name)) name = Some []"
    using absent by (simp add: add_student_def AList.update_conv')
  have "name \<notin> set (map fst student_data)"
    using absent by (simp add: map_of_eq_None_iff)
  then have "count_list (map fst student_data) name = 0" by simp
  then show "count_list (list_students (fst (add_student student_data name))) name = 1"
    by (simp add: eq list_students_def)
qed

theorem add_student_cases_witness:
  "map_of sample_data ''Ann'' \<noteq> None
   \<and> add_student sample_data ''Ann'' = (sample_data, DuplicateStudent ''Ann'')
   \<and> map_of sample_data ''Cy'' = None
   \<and> list_students (fst (add_student sample_data ''Cy'')) = [''Ann'', ''Bob'', ''Cy'']
   \<and> count_list (list_students (fst (add_student sample_data ''Cy''))) ''Cy'' = 1"
  using add_student_cases [of sample_data "''Ann''"] add_student_cases [of sample_data "''Cy''"]
  by (simp add: sample_data_def list_students_def)

subsection \<open>Adding a grade\<close>

lemma in_range_Finite: "in_range (Finite s) \<longleftrightarrow> 0 \<le> s \<and> s \<le> 100"
  by (simp add: in_range_def)

lemma in_range_is_finite: "in_range g \<Longrightarrow> is_finite g"
  by (cases g) (simp_all add: in_range_def)

lemma update_frame: "other \<noteq> k \<Longrightarrow> map_of (AList.update k v al) other = map_of al other"
  by (simp add: AList.update_conv')

text \<open>
  Claim C1. For a student that is present and a text that \<^verbatim>\<open>float\<close> reads as a finite \<open>s\<close>
  with \<open>0 \<le> s \<le> 100\<close>, \<^verbatim>\<open>add_grade\<close> sets the subject to \<open>s\<close> for that student: looking
  the subject up afterwards gives \<open>s\<close>; a subject that was present keeps its place and the
  number of subjects is unchanged, a new subject is appended; every other subject, every
  other student and the order of the students are as before.
\<close>

theorem add_grade_upsert:
  assumes "map_of student_data name = Some subjects"
    and "float_of grade = Some (Finite s)" and "0 \<le> s" and "s \<le> 100"
    and "add_grade float_of student_data name subject grade = (after, printed)"
  shows "printed = GradeAdded name subject (Finite s)
    \<and> (\<exists>subjects'. map_of after name = Some subjects'
          \<and> map_of subjects' subject = Some (Finite s)
          \<and> (\<forall>other. other \<noteq> subject \<longrightarrow> map_of subjects' other = map_of subjects other)
          \<and> (map_of subjects subject \<noteq> None \<longrightarrow>
                length subjects' = length subjects \<and> map fst subjects' = map fst subjects)
          \<and> (map_of subjects subject = None \<longrightarrow> subjects' = subjects @ [(subject, Finite s)]))
    \<and> map fst after = map fst student_data
    \<and> (\<forall>other. other \<noteq> name \<longrightarrow> map_of after other = map_of student_data other)"
proof -
  let ?new = "AList.update subject (Finite s) subjects"
  have r: "in_range (Finite s)" using assms(3,4) by (simp add: in_range_Finite)
  have eq: "(after, printed) = (AList.update name ?new student_data, GradeAdded name subject (Finite s))"
    using assms(1,2,5) r by (simp add: add_grade_def)
  then have a: "after = AList.update name ?new student_data"
    and p: "printed = GradeAdded name subject (Finite s)" by simp_all
  have 1: "map_of after name = Some ?new" by (simp add: a AList.update_conv')
  have 2: "map_of ?new subject = Some (Finite s)" by (simp add: AList.update_conv')
  have 3: "\<forall>other. other \<noteq> subject \<longrightarrow> map_of ?new other = map_of subjects other"
    by (simp add: update_frame)
  have 4: "map_of subjects subject \<noteq> None \<longrightarrow>
             length ?new = length subjects \<and> map fst ?new = map fst subjects"
    using update_old_key [of subjects subject "Finite s"] by blast
  have 5: "map_of subjects subject = None \<longrightarrow> ?new = subjects @ [(subject, Finite s)]"
    by (simp add: update_new_key)
  have 6: "map fst after = map fst student_data"
    using assms(1) by (simp add: a update_keeps_keys)
  have 7: "\<forall>other. other \<noteq> name \<longrightarrow> map_of after other = map_of student_data other"
    by (simp add: a update_frame)
  have "\<exists>subjects'. map_of after name = Some subjects'
          \<and> map_of subjects' subject = Some (Finite s)
          \<and> (\<forall>other. other \<noteq> subject \<longrightarrow> map_of subjects' other = map_of subjects other)
          \<and> (map_of subjects subject \<noteq> None \<longrightarrow>
                length subjects' = length subjects \<and> map fst subjects' = map fst subjects)
          \<and> (map_of subjects subject = None \<longrightarrow> subjects' = subjects @ [(subject, Finite s)])"
    using 1 2 3 4 5 by (intro exI [where x = "?new"] conjI)
  with p 6 7 show ?thesis by (intro conjI)
qed

theorem add_grade_upsert_witness:
  "map_of sample_data ''Ann'' = Some [(''Math'', Finite 70), (''Art'', Finite 55)]
   \<and> sample_float_of ''85'' = Some (Finite 85) \<and> (0::rat) \<le> 85 \<and> (85::rat) \<le> 100
   \<and> add_grade sample_float_of sample_data ''Ann'' ''Math'' ''85'' =
       ([(''Ann'', [(''Math'', Finite 85), (''Art'', Finite 55)]), (''Bob'', [])],
        GradeAdded ''Ann'' ''Math'' (Finite 85))
   \<and> map fst [(''Ann'', [(''Math'', Finite 85), (''Art'', Finite 55)]), (''Bob'', [])]
       = map fst sample_data"
  using add_grade_upsert [where student_data = sample_data and name = "''Ann''"
      and subjects = "[(''Math'', Finite 70), (''Art'', Finite 55)]"
      and float_of = sample_float_of and grade = "''85''" and s = 85 and subject = "''Math''"
      and after = "[(''Ann'', [(''Math'', Finite 85), (''Art'', Finite 55)]), (''Bob'', [])]"
      and printed = "GradeAdded ''Ann'' ''Math'' (Finite 85)"]
  by (simp add: sample_data_def sample_float_of_def add_grade_def in_range_def)

text \<open>
  Claim C3. When \<^verbatim>\<open>add_grade\<close> fails (student absent; text rejected by \<^verbatim>\<open>float\<close>; value
  outside \<open>[0, 100]\<close>) it returns the store unchanged and prints the matching error, and
  whenever it prints one of the three errors the store is unchanged.
\<close>

theorem add_grade_failure_leaves_store:
  "(map_of student_data name = None \<longrightarrow>
      add_grade float_of student_data name subject grade = (student_data, StudentNotFound name))
   \<and> (map_of student_data name \<noteq> None \<and> float_of grade = None \<longrightarrow>
      add_grade float_of student_data name subject grade = (student_data, InvalidGradeFormat))
   \<and> (map_of student_data name \<noteq> None \<and> float_of grade = Some g \<and> \<not> in_range g \<longrightarrow>
      add_grade float_of student_data name subject grade = (student_data, GradeOutOfRange))
   \<and> (in_range (Finite s) \<longleftrightarrow> 0 \<le> s \<and> s \<le> 100)
   \<and> (snd (add_grade float_of student_data name subject grade)
         \<in> {StudentNotFound name, InvalidGradeFormat, GradeOutOfRange} \<longrightarrow>
      fst (add_grade float_of student_data name subject grade) = student_data)"
  by (auto simp add: add_grade_def in_range_Finite split: option.splits)

theorem add_grade_failure_leaves_store_witness:
  "map_of sample_data ''Cy'' = None
   \<and> add_grade sample_float_of sample_data ''Cy'' ''Math'' ''85'' = (sample_data, StudentNotFound ''Cy'')
   \<and> map_of sample_data ''Ann'' \<noteq> None \<and> sample_float_of ''abc'' = None
   \<and> add_grade sample_float_of sample_data ''Ann'' ''Math'' ''abc'' = (sample_data, InvalidGradeFormat)
   \<and> sample_float_of ''150'' = Some (Finite 150) \<and> \<not> in_range (Finite 150)
   \<and> add_grade sample_float_of sample_data ''Ann'' ''Math'' ''150'' = (sample_data, GradeOutOfRange)
   \<and> snd (add_grade sample_float_of sample_data ''Ann'' ''Math'' ''150'')
        \<in> {StudentNotFound ''Ann'', InvalidGradeFormat, GradeOutOfRange}
   \<and> fst (add_grade sample_float_of sample_data ''Ann'' ''Math'' ''150'') = sample_data"
  using add_grade_failure_leaves_store [where student_data = sample_data and name = "''Cy''"
      and float_of = sample_float_of and subject = "''Math''" and grade = "''85''"]
    add_grade_failure_leaves_store [where student_data = sample_data and name = "''Ann''"
      and float_of = sample_float_of and subject = "''Math''" and grade = "''abc''"]
    add_grade_failure_leaves_store [where student_data = sample_data and name = "''Ann''"
      and float_of = sample_float_of and subject = "''Math''" and grade = "''150''"
      and g = "Finite 150" and s = 150]
  by (simp add: sample_data_def sample_float_of_def in_range_def)

lemma scores_update_inner:
  "set (map snd (AList.update k v al)) \<subseteq> insert v (set (map snd al))"
  by (induct al) auto

lemma scores_update_outer:
  "set (stored_scores (AList.update name subjects' student_data))
     \<subseteq> set (map snd subjects') \<union> set (stored_scores student_data)"
proof (induct student_data)
  case Nil
  show ?case by (simp add: stored_scores_def)
next
  case (Cons p ps)
  have "stored_scores (p # ps) = map snd (snd p) @ stored_scores ps"
    by (simp add: stored_scores_def)
  moreover have "stored_scores (p # AList.update name subjects' ps)
      = map snd (snd p) @ stored_scores (AList.update name subjects' ps)"
    by (simp add: stored_scores_def)
  moreover have "stored_scores ((name, subjects') # ps) = map snd subjects' @ stored_scores ps"
    by (simp add: stored_scores_def)
  ultimately show ?case using Cons by (cases "fst p = name") auto
qed

lemma scores_lookup:
  "map_of student_data name = Some subjects \<Longrightarrow>
     set (map snd subjects) \<subseteq> set (stored_scores student_data)"
proof (induct student_data)
  case Nil
  then show ?case by simp
next
  case (Cons p ps)
  have c: "stored_scores (p # ps) = map snd (snd p) @ stored_scores ps"
    by (simp add: stored_scores_def)
  show ?case
  proof (cases "fst p = name")
    case True
    then have "snd p = subjects" using Cons.prems by (cases p) simp
    then show ?thesis by (simp add: c)
  next
    case False
    then have "map_of ps name = Some subjects" using Cons.prems by (cases p) simp
    then have "set (map snd subjects) \<subseteq> set (stored_scores ps)" by (rule Cons.hyps)
    then show ?thesis by (auto simp add: c)
  qed
qed

lemma scores_add_grade:
  "set (stored_scores (fst (add_grade float_of student_data name subject grade)))
     \<subseteq> set (stored_scores student_data) \<union> {g. float_of grade = Some g \<and> in_range g}"
proof (cases "map_of student_data name")
  case None
  then show ?thesis by (simp add: add_grade_def)
next
  case (Some subjects)
  have inner: "set (map snd subjects) \<subseteq> set (stored_scores student_data)"
    using Some by (rule scores_lookup)
  show ?thesis
  proof (cases "float_of grade")
    case None
    then show ?thesis using Some by (simp add: add_grade_def)
  next
    case g: (Some g)
    show ?thesis
    proof (cases "in_range g")
      case False
      then show ?thesis using Some g by (simp add: add_grade_def)
    next
      case True
      have "set (stored_scores (AList.update name (AList.update subject g subjects) student_data))
              \<subseteq> set (map snd (AList.update subject g subjects)) \<union> set (stored_scores student_data)"
        by (rule scores_update_outer)
      also have "\<dots> \<subseteq> insert g (set (map snd subjects)) \<union> set (stored_scores student_data)"
        using scores_update_inner [of subject g subjects] by blast
      also have "\<dots> \<subseteq> set (stored_scores student_data) \<union> {g}" using inner by blast
      finally show ?thesis using Some g True by (auto simp add: add_grade_def)
    qed
  qed
qed

text \<open>
  Claim C10. For a student that is present, a text that \<^verbatim>\<open>float\<close> reads as NaN or an
  infinity fails the range test, so \<^verbatim>\<open>add_grade\<close> prints the range error (not the format
  error) and returns the store unchanged; and whatever the input, every score in the store
  after \<^verbatim>\<open>add_grade\<close> is finite or was in the store before.
\<close>

theorem add_grade_non_finite:
  "(map_of student_data name \<noteq> None \<and> float_of grade = Some g
      \<and> (g = NaN \<or> g = PosInf \<or> g = NegInf) \<longrightarrow>
        \<not> in_range g
        \<and> add_grade float_of student_data name subject grade = (student_data, GradeOutOfRange))
   \<and> (\<forall>x \<in> set (stored_scores (fst (add_grade float_of student_data name subject grade))).
        is_finite x \<or> x \<in> set (stored_scores student_data))"
proof (intro conjI impI ballI)
  assume h: "map_of student_data name \<noteq> None \<and> float_of grade = Some g
      \<and> (g = NaN \<or> g = PosInf \<or> g = NegInf)"
  then show n: "\<not> in_range g" by (auto simp add: in_range_def)
  then show "add_grade float_of student_data name subject grade = (student_data, GradeOutOfRange)"
    using h by (auto simp add: add_grade_def)
next
  fix x
  assume "x \<in> set (stored_scores (fst (add_grade float_of student_data name subject grade)))"
  then have "x \<in> set (stored_scores student_data) \<union> {g. float_of grade = Some g \<and> in_range g}"
    using scores_add_grade by blast
  then show "is_finite x \<or> x \<in> set (stored_scores student_data)"
    using in_range_is_finite by blast
qed

theorem add_grade_non_finite_witness:
  "map_of sample_data ''Ann'' \<noteq> None \<and> sample_float_of ''nan'' = Some NaN
   \<and> add_grade sample_float_of sample_data ''Ann'' ''Math'' ''nan'' = (sample_data, GradeOutOfRange)
   \<and> sample_float_of ''inf'' = Some PosInf
   \<and> add_grade sample_float_of sample_data ''Ann'' ''Math'' ''inf'' = (sample_data, GradeOutOfRange)
   \<and> sample_float_of ''-inf'' = Some NegInf
   \<and> add_grade sample_float_of sample_data ''Ann'' ''Math'' ''-inf'' = (sample_data, GradeOutOfRange)
   \<and> stored_scores (fst (add_grade sample_float_of sample_data ''Ann'' ''Math'' ''85''))
       = [Finite 85, Finite 55]"
  using add_grade_non_finite [where student_data = sample_data and name = "''Ann''"
      and float_of = sample_float_of and subject = "''Math''" and grade = "''nan''" and g = NaN]
    add_grade_non_finite [where student_data = sample_data and name = "''Ann''"
      and float_of = sample_float_of and subject = "''Math''" and grade = "''inf''" and g = PosInf]
    add_grade_non_finite [where student_data = sample_data and name = "''Ann''"
      and float_of = sample_float_of and subject = "''Math''" and grade = "''-inf''" and g = NegInf]
    add_grade_non_finite [where student_data = sample_data and name = "''Ann''"
      and float_of = sample_float_of and subject = "''Math''" and grade = "''85''" and g = "Finite 85"]
  by (simp add: sample_data_def sample_float_of_def stored_scores_def add_grade_def in_range_def)

subsection \<open>Deleting a grade\<close>

text \<open>
  Claim C8. \<^verbatim>\<open>delete_grade\<close> reports a missing student or a missing subject and then
  returns the store unchanged; when both exist it removes the entry of that subject from
  that student (one entry, the keys being distinct), keeps the other subjects of the
  student with their scores and order, and leaves every other student and the order of
  the students as they were.
\<close>

theorem delete_grade_cases:
  "(map_of student_data name = None \<longrightarrow>
      delete_grade student_data name subject = (student_data, StudentNotFound name))
   \<and> (map_of student_data name = Some subjects \<and> map_of subjects subject = None \<longrightarrow>
      delete_grade student_data name subject = (student_data, SubjectNotFound name subject))
   \<and> (map_of student_data name = Some subjects \<and> map_of subjects subject \<noteq> None \<longrightarrow>
      snd (delete_grade student_data name subject) = GradeDeleted name subject
      \<and> map_of (fst (delete_grade student_data name subject)) name
           = Some (filter (\<lambda>entry. fst entry \<noteq> subject) subjects)
      \<and> map_of (filter (\<lambda>entry. fst entry \<noteq> subject) subjects) subject = None
      \<and> (\<forall>other. other \<noteq> subject \<longrightarrow>
            map_of (filter (\<lambda>entry. fst entry \<noteq> subject) subjects) other = map_of subjects other)
      \<and> (distinct (map fst subjects) \<longrightarrow>
            Suc (length (filter (\<lambda>entry. fst entry \<noteq> subject) subjects)) = length subjects)
      \<and> map fst (fst (delete_grade student_data name subject)) = map fst student_data
      \<and> (\<forall>other. other \<noteq> name \<longrightarrow>
            map_of (fst (delete_grade student_data name subject)) other = map_of student_data other))"
proof (intro conjI impI allI)
  assume "map_of student_data name = None"
  then show "delete_grade student_data name subject = (student_data, StudentNotFound name)"
    by (simp add: delete_grade_def)
next
  assume "map_of student_data name = Some subjects \<and> map_of subjects subject = None"
  then show "delete_grade student_data name subject = (student_data, SubjectNotFound name subject)"
    by (simp add: delete_grade_def)
next
  assume h: "map_of student_data name = Some subjects \<and> map_of subjects subject \<noteq> None"
  let ?rest = "filter (\<lambda>entry. fst entry \<noteq> subject) subjects"
  have eq: "delete_grade student_data name subject =
              (AList.update name ?rest student_data, GradeDeleted name subject)"
    using h by (auto simp add: delete_grade_def delete_is_filter)
  show "snd (delete_grade student_data name subject) = GradeDeleted name subject"
    by (simp add: eq)
  show "map_of (fst (delete_grade student_data name subject)) name = Some ?rest"
    by (simp add: eq AList.update_conv')
  show "map_of ?rest subject = None"
    using AList.delete_conv' [of subject subjects] by (simp add: delete_is_filter)
  show "map fst (fst (delete_grade student_data name subject)) = map fst student_data"
    using h by (simp add: eq update_keeps_keys)
  {
    fix other
    assume "other \<noteq> subject"
    then show "map_of ?rest other = map_of subjects other"
      using AList.map_of_delete [of other subject subjects] by (simp add: delete_is_filter)
  }
  {
    assume "distinct (map fst subjects)"
    then show "Suc (length ?rest) = length subjects"
      using h delete_one_entry [of subjects subject] by (simp add: delete_is_filter)
  }
  {
    fix other
    assume "other \<noteq> name"
    then show "map_of (fst (delete_grade student_data name subject)) other = map_of student_data other"
      by (simp add: eq update_frame)
  }
qed

theorem delete_grade_cases_witness:
  "map_of sample_data ''Cy'' = None
   \<and> delete_grade sample_data ''Cy'' ''Math'' = (sample_data, StudentNotFound ''Cy'')
   \<and> map_of sample_data ''Bob'' = Some [] \<and> map_of [] ''Math'' = (None :: pyfloat option)
   \<and> delete_grade sample_data ''Bob'' ''Math'' = (sample_data, SubjectNotFound ''Bob'' ''Math'')
   \<and> map_of sample_data ''Ann'' = Some [(''Math'', Finite 70), (''Art'', Finite 55)]
   \<and> map_of [(''Math'', Finite 70), (''Art'', Finite 55)] ''Math'' \<noteq> None
   \<and> distinct (map fst [(''Math'', Finite 70), (''Art'', Finite 55)])
   \<and> delete_grade sample_data ''Ann'' ''Math'' =
       ([(''Ann'', [(''Art'', Finite 55)]), (''Bob'', [])], GradeDeleted ''Ann'' ''Math'')"
  using delete_grade_cases [where student_data = sample_data and name = "''Cy''" and subject = "''Math''"]
    delete_grade_cases [where student_data = sample_data and name = "''Bob''" and subject = "''Math''"
      and subjects = "[]"]
    delete_grade_cases [where student_data = sample_data and name = "''Ann''" and subject = "''Math''"
      and subjects = "[(''Math'', Finite 70), (''Art'', Finite 55)]"]
  by (simp add: sample_data_def delete_grade_def)

lemma round_half_away_eq: "0 \<le> x \<Longrightarrow> of_int n \<le> x + 1 / 2 \<Longrightarrow> x + 1 / 2 < of_int n + 1 \<Longrightarrow> round_half_away x = n"
  by (simp add: round_half_away_def floor_unique)

lemma spec_cents:
  "spec_average HalfEven [double_0_01, double_0_02] = Average (Finite double_0_02)"
  "spec_average HalfAwayFromZero [double_0_01, double_0_02] = Average (Finite double_0_02)"
  "spec_average HalfEven [1 / 100, 2 / 100] = Average (Finite double_0_02)"
  "spec_average HalfAwayFromZero [1 / 100, 2 / 100] = Average (Finite double_0_02)"
proof -
  have m: "exact_mean [double_0_01, double_0_02] = 17293822569102705 / 2 ^ 60"
    by (simp add: exact_mean_def double_0_01_def double_0_02_def)
  have "round_half_even (17293822569102705 / 2 ^ 60 * 100) = 2"
    by (rule round_half_even_near) simp
  then have "round_2dp HalfEven (17293822569102705 / 2 ^ 60) = 2 / 100" by simp
  then show "spec_average HalfEven [double_0_01, double_0_02] = Average (Finite double_0_02)"
    using fl_0_02 by (simp only: spec_average_def m) simp
  have "round_half_away (17293822569102705 / 2 ^ 60 * 100) = 2"
    by (rule round_half_away_eq) simp_all
  then have "round_2dp HalfAwayFromZero (17293822569102705 / 2 ^ 60) = 2 / 100" by simp
  then show "spec_average HalfAwayFromZero [double_0_01, double_0_02] = Average (Finite double_0_02)"
    using fl_0_02 by (simp only: spec_average_def m) simp
  have d: "exact_mean [1 / 100, 2 / 100] = 3 / 200" by (simp add: exact_mean_def)
  have "round_half_even (3 / 200 * 100) = (if even (1::int) then 1 else 1 + 1)"
    by (rule round_half_even_tie) simp
  then have "round_2dp HalfEven (3 / 200) = 2 / 100" by simp
  then show "spec_average HalfEven [1 / 100, 2 / 100] = Average (Finite double_0_02)"
    using fl_0_02 by (simp only: spec_average_def d) simp
  have "round_half_away (3 / 200 * 100) = 2"
    by (rule round_half_away_eq) simp_all
  then have "round_2dp HalfAwayFromZero (3 / 200) = 2 / 100" by simp
  then show "spec_average HalfAwayFromZero [1 / 100, 2 / 100] = Average (Finite double_0_02)"
    using fl_0_02 by (simp only: spec_average_def d) simp
qed

subsection \<open>The average of a student\<close>

text \<open>
  The specification's reading of claim C2 fails for a student whose grades are the floats
  0.01 and 0.02. Their float sum falls on a tie and is rounded down to the float 0.03,
  half of it lies below 0.015, and \<^verbatim>\<open>round\<close> returns 0.01, under either summation loop.
  The exact mean of the two floats lies above 0.015 and the mean of the decimals 0.01 and
  0.02 is 0.015 itself: rounded to two places they give 0.02 under both tie-breaking rules.
\<close>

theorem calculate_average_grade_counterexample:
  "calculate_average_grade Naive cents_data ''Ann'' = Inr (Average (Finite double_0_01))
   \<and> calculate_average_grade Neumaier cents_data ''Ann'' = Inr (Average (Finite double_0_01))
   \<and> spec_average HalfEven [double_0_01, double_0_02] = Average (Finite double_0_02)
   \<and> spec_average HalfAwayFromZero [double_0_01, double_0_02] = Average (Finite double_0_02)
   \<and> spec_average HalfEven [1 / 100, 2 / 100] = Average (Finite double_0_02)
   \<and> spec_average HalfAwayFromZero [1 / 100, 2 / 100] = Average (Finite double_0_02)
   \<and> double_0_01 \<noteq> double_0_02"
  using cents_float_average [of Naive] cents_float_average [of Neumaier] spec_cents
  by (simp add: double_0_01_def double_0_02_def)

lemma exactly_summable_80_90: "exactly_summable [80, 90]"
  using is_double_80 is_double_90 is_double_170 is_double_85 is_double_2
  by (simp add: exactly_summable_def exact_mean_def)

lemma spec_average_80_90: "spec_average HalfEven [80, 90] = Average (Finite 85)"
proof -
  have "exact_mean [80, 90] = 85" by (simp add: exact_mean_def)
  moreover have "round_half_even (85 * 100) = 8500" by (rule round_half_even_near) simp
  moreover have "fl 85 = Finite 85" using is_double_85 by (simp add: is_double_def)
  ultimately show ?thesis by (simp add: spec_average_def)
qed

text \<open>
  Claim C2, amended. \<^verbatim>\<open>calculate_average_grade\<close> returns the "N/A" value when the student
  is absent or has no grade. Otherwise it does not raise and returns
  \<^verbatim>\<open>round(sum / len, 2)\<close> as float arithmetic computes it: the float sum of the scores
  divided by their count, rounded to two decimals half-to-even on its exact binary value.
  That is the arithmetic mean rounded half-to-even to two decimals whenever the scores
  are exactly summable (every running sum, the count and the mean are doubles); for the
  grades 80 and 90 it is 85.0.
\<close>

theorem calculate_average_grade_float_mean:
  "(map_of student_data name = None \<or> map_of student_data name = Some [] \<longrightarrow>
      calculate_average_grade alg student_data name = Inr NotApplicable)
   \<and> (map_of student_data name = Some subjects \<and> subjects \<noteq> [] \<longrightarrow>
        (\<exists>m. py_truediv (py_sum alg (map snd subjects)) (length subjects) = Inr m
           \<and> calculate_average_grade alg student_data name = Inr (Average (py_round2 m))))
   \<and> (map_of student_data name = Some subjects \<and> map snd subjects = map Finite qs
        \<and> qs \<noteq> [] \<and> exactly_summable qs \<longrightarrow>
        calculate_average_grade alg student_data name = Inr (spec_average HalfEven qs))
   \<and> (map_of student_data name = Some [(s1, Finite 80), (s2, Finite 90)] \<longrightarrow>
        calculate_average_grade alg student_data name = Inr (Average (Finite 85)))"
proof -
  have general: "\<exists>m. py_truediv (py_sum alg (map snd subjects)) (length subjects) = Inr m
           \<and> calculate_average_grade alg student_data name = Inr (Average (py_round2 m))"
    if "map_of student_data name = Some subjects" and "subjects \<noteq> []" for subjects
  proof -
    have "0 < length subjects" using that(2) by simp
    then obtain m where "py_truediv (py_sum alg (map snd subjects)) (length subjects) = Inr m"
      using py_truediv_positive by blast
    then show ?thesis using that by (simp add: calculate_average_grade_def del: py_round2.simps)
  qed
  have exact: "calculate_average_grade alg student_data name = Inr (spec_average HalfEven qs)"
    if "map_of student_data name = Some subjects" and "map snd subjects = map Finite qs"
      and "qs \<noteq> []" and "exactly_summable qs" for subjects qs
  proof -
    have l: "length subjects = length qs" using that(2) by (metis length_map)
    have ne: "subjects \<noteq> []" using that(2,3) by auto
    have "py_truediv (py_sum alg (map snd subjects)) (length subjects) = Inr (Finite (exact_mean qs))"
      using mean_exact [OF that(4,3)] by (simp add: that(2) l)
    then show ?thesis using that(1,3) ne
      by (simp add: calculate_average_grade_def spec_average_def)
  qed
  have example: "calculate_average_grade alg student_data name = Inr (Average (Finite 85))"
    if "map_of student_data name = Some [(s1, Finite 80), (s2, Finite 90)]"
    using exact [OF that, of "[80, 90]"] exactly_summable_80_90 spec_average_80_90 by simp
  show ?thesis
    using general exact example by (auto simp add: calculate_average_grade_def)
qed

theorem calculate_average_grade_float_mean_witness:
  "map_of sample_data ''Cy'' = None
   \<and> calculate_average_grade Neumaier sample_data ''Cy'' = Inr NotApplicable
   \<and> map_of sample_data ''Bob'' = Some []
   \<and> calculate_average_grade Neumaier sample_data ''Bob'' = Inr NotApplicable
   \<and> map_of [(''Dee'', [(''Math'', Finite 80), (''Art'', Finite 90)])] ''Dee''
        = Some [(''Math'', Finite 80), (''Art'', Finite 90)]
   \<and> map snd [(''Math'', Finite 80), (''Art'', Finite 90)] = map Finite [80, 90]
   \<and> exactly_summable [80, 90]
   \<and> calculate_average_grade Neumaier [(''Dee'', [(''Math'', Finite 80), (''Art'', Finite 90)])] ''Dee''
        = Inr (Average (Finite 85))
   \<and> calculate_average_grade Naive [(''Dee'', [(''Math'', Finite 80), (''Art'', Finite 90)])] ''Dee''
        = Inr (Average (Finite 85))"
proof -
  let ?dee = "[(''Dee'', [(''Math'', Finite 80), (''Art'', Finite 90)])]"
  have h1: "map_of sample_data ''Cy'' = None" by (simp add: sample_data_def)
  have h2: "map_of sample_data ''Bob'' = Some []" by (simp add: sample_data_def)
  have h3: "map_of ?dee ''Dee'' = Some [(''Math'', Finite 80), (''Art'', Finite 90)]" by simp
  have h4: "map snd [(''Math'', Finite 80), (''Art'', Finite 90)] = map Finite [80, 90]" by simp
  have h5: "[80, 90] \<noteq> ([] :: rat list)" by simp
  have c1: "calculate_average_grade Neumaier sample_data ''Cy'' = Inr NotApplicable"
    using calculate_average_grade_float_mean [where student_data = sample_data and name = "''Cy''"
      and alg = Neumaier] h1 by blast
  have c2: "calculate_average_grade Neumaier sample_data ''Bob'' = Inr NotApplicable"
    using calculate_average_grade_float_mean [where student_data = sample_data and name = "''Bob''"
      and alg = Neumaier] h2 by blast
  have "calculate_average_grade Neumaier ?dee ''Dee'' = Inr (spec_average HalfEven [80, 90])"
    using calculate_average_grade_float_mean [where student_data = ?dee and name = "''Dee''"
      and alg = Neumaier and subjects = "[(''Math'', Finite 80), (''Art'', Finite 90)]"
      and qs = "[80, 90]"] h3 h4 h5 exactly_summable_80_90 by blast
  then have c3: "calculate_average_grade Neumaier ?dee ''Dee'' = Inr (Average (Finite 85))"
    by (simp only: spec_average_80_90)
  have c4: "calculate_average_grade Naive ?dee ''Dee'' = Inr (Average (Finite 85))"
    using calculate_average_grade_float_mean [where student_data = ?dee and name = "''Dee''"
      and alg = Naive and ?s1.0 = "''Math''" and ?s2.0 = "''Art''"] h3 by blast
  from h1 c1 h2 c2 h3 h4 exactly_summable_80_90 c3 c4 show ?thesis by (intro conjI)
qed

subsection \<open>The average of a class in a subject\<close>

lemma class_average_as_mean:
  "calculate_class_subject_average student_data subject =
     (if subject_scores subject student_data = [] then Inr NotApplicable
      else (case py_truediv (py_sum Naive (subject_scores subject student_data))
                   (length (subject_scores subject student_data)) of
              Inl e \<Rightarrow> Inl e
            | Inr a \<Rightarrow> Inr (Average (py_round2 a))))"
  by (simp add: calculate_class_subject_average_def class_totals_scores del: py_round2.simps)

lemma exactly_summable_100_50: "exactly_summable [100, 50]"
  using is_double_int [of 100] is_double_int [of 50] is_double_int [of 150]
    is_double_int [of 75] is_double_2
  by (simp add: exactly_summable_def exact_mean_def)

lemma spec_average_100_50: "spec_average HalfEven [100, 50] = Average (Finite 75)"
proof -
  have "exact_mean [100, 50] = 75" by (simp add: exact_mean_def)
  moreover have "round_half_even (75 * 100) = 7500" by (rule round_half_even_near) simp
  moreover have "fl 75 = Finite 75" using is_double_int [of 75] by (simp add: is_double_def)
  ultimately show ?thesis by (simp add: spec_average_def)
qed

text \<open>
  Claim C6, amended. \<^verbatim>\<open>calculate_class_subject_average\<close> returns the "N/A" value exactly
  when no student has an entry for the subject. Otherwise it does not raise and returns
  \<^verbatim>\<open>round(total / count, 2)\<close> as float arithmetic computes it, where total and count
  range over the scores of exactly the students that have the subject: the running float
  sum of those scores divided by their number, rounded to two decimals half-to-even.
  That is their arithmetic mean rounded half-to-even to two decimals whenever they are
  exactly summable; for A with 100, B with 50 and C without a grade it is 75.0.
\<close>

theorem calculate_class_subject_average_float_mean:
  "(subject_scores subject student_data = [] \<longleftrightarrow>
      (\<forall>entry \<in> set student_data. map_of (snd entry) subject = None))
   \<and> (subject_scores subject student_data = [] \<longrightarrow>
        calculate_class_subject_average student_data subject = Inr NotApplicable)
   \<and> (subject_scores subject student_data \<noteq> [] \<longrightarrow>
        (\<exists>m. py_truediv (py_sum Naive (subject_scores subject student_data))
                (length (subject_scores subject student_data)) = Inr m
           \<and> calculate_class_subject_average student_data subject = Inr (Average (py_round2 m))))
   \<and> (subject_scores subject student_data = map Finite qs \<and> qs \<noteq> [] \<and> exactly_summable qs \<longrightarrow>
        calculate_class_subject_average student_data subject = Inr (spec_average HalfEven qs))
   \<and> calculate_class_subject_average class_sample ''Math'' = Inr (Average (Finite 75))"
proof -
  have general: "\<exists>m. py_truediv (py_sum Naive (subject_scores subject student_data))
                (length (subject_scores subject student_data)) = Inr m
           \<and> calculate_class_subject_average student_data subject = Inr (Average (py_round2 m))"
    if "subject_scores subject student_data \<noteq> []"
  proof -
    have "0 < length (subject_scores subject student_data)" using that by simp
    then obtain m where "py_truediv (py_sum Naive (subject_scores subject student_data))
                (length (subject_scores subject student_data)) = Inr m"
      using py_truediv_positive by blast
    then show ?thesis using that by (simp add: class_average_as_mean del: py_round2.simps py_sum.simps)
  qed
  have exact: "calculate_class_subject_average sd sub = Inr (spec_average HalfEven qs)"
    if "subject_scores sub sd = map Finite qs" and "qs \<noteq> []" and "exactly_summable qs"
    for sd sub qs
  proof -
    have "py_truediv (py_sum Naive (map Finite qs)) (length qs) = Inr (Finite (exact_mean qs))"
      using that(3,2) by (rule mean_exact)
    then show ?thesis using that(1,2)
      by (simp add: class_average_as_mean spec_average_def del: py_sum.simps)
  qed
  have "subject_scores ''Math'' class_sample = map Finite [100, 50]"
    by (simp add: class_sample_def)
  then have example: "calculate_class_subject_average class_sample ''Math'' = Inr (Average (Finite 75))"
    using exact [of "''Math''" class_sample "[100, 50]"] exactly_summable_100_50 spec_average_100_50
    by simp
  show ?thesis
    using general exact example subject_scores_empty [of subject student_data]
    by (auto simp add: class_average_as_mean)
qed

theorem calculate_class_subject_average_float_mean_witness:
  "subject_scores ''Math'' class_sample = map Finite [100, 50]
   \<and> [100, 50] \<noteq> ([] :: rat list) \<and> exactly_summable [100, 50]
   \<and> calculate_class_subject_average class_sample ''Math'' = Inr (Average (Finite 75))
   \<and> subject_scores ''Art'' class_sample = []
   \<and> calculate_class_subject_average class_sample ''Art'' = Inr NotApplicable"
proof -
  have h1: "subject_scores ''Math'' class_sample = map Finite [100, 50]"
    by (simp add: class_sample_def)
  have h2: "[100, 50] \<noteq> ([] :: rat list)" by simp
  have h3: "subject_scores ''Art'' class_sample = []" by (simp add: class_sample_def)
  have "calculate_class_subject_average class_sample ''Math'' = Inr (spec_average HalfEven [100, 50])"
    using calculate_class_subject_average_float_mean [where student_data = class_sample
      and subject = "''Math''" and qs = "[100, 50]"] h1 h2 exactly_summable_100_50 by blast
  then have c1: "calculate_class_subject_average class_sample ''Math'' = Inr (Average (Finite 75))"
    by (simp only: spec_average_100_50)
  have c3: "calculate_class_subject_average class_sample ''Art'' = Inr NotApplicable"
    using calculate_class_subject_average_float_mean [where student_data = class_sample
      and subject = "''Art''"] h3 by blast
  from h1 h2 exactly_summable_100_50 c1 h3 c3 show ?thesis by (intro conjI)
qed

text \<open>
  The specification's reading of claim C6 fails for two students whose Math grades are
  the floats 0.01 and 0.02: the function returns 0.01, the mean rounded to two places is
  0.02 under both tie-breaking rules.
\<close>

theorem calculate_class_subject_average_counterexample:
  "subject_scores ''Math'' cents_class = [Finite double_0_01, Finite double_0_02]
   \<and> calculate_class_subject_average cents_class ''Math'' = Inr (Average (Finite double_0_01))
   \<and> spec_average HalfEven [double_0_01, double_0_02] = Average (Finite double_0_02)
   \<and> spec_average HalfAwayFromZero [double_0_01, double_0_02] = Average (Finite double_0_02)
   \<and> spec_average HalfEven [1 / 100, 2 / 100] = Average (Finite double_0_02)
   \<and> spec_average HalfAwayFromZero [1 / 100, 2 / 100] = Average (Finite double_0_02)
   \<and> double_0_01 \<noteq> double_0_02"
proof -
  have s: "subject_scores ''Math'' cents_class = [Finite double_0_01, Finite double_0_02]"
    by (simp add: cents_class_def)
  have "calculate_class_subject_average cents_class ''Math'' = Inr (Average (Finite double_0_01))"
    using truediv_cents py_round2_cents_mean naive_cents
    by (simp add: class_average_as_mean s numeral_2_eq_2 del: py_round2.simps py_sum.simps)
  moreover have "double_0_01 \<noteq> double_0_02" by (simp add: double_0_01_def double_0_02_def)
  ultimately show ?thesis using s spec_cents by (intro conjI)
qed

subsection \<open>The report\<close>

text \<open>
  Claim C5, amended. \<^verbatim>\<open>view_student_report\<close> prints the "not found" error exactly when
  the student is absent. For a student with at least one grade it prints the header, one
  line for each (subject, score) pair in the order of the mapping, the average that
  \<^verbatim>\<open>calculate_average_grade\<close> returns, which is a number, and the separator. For a
  student without grades it prints the header and "No grades recorded yet.", and
  no average.
\<close>

theorem view_student_report_cases:
  "(view_student_report alg student_data name = Inr [StudentNotFound name]
      \<longleftrightarrow> map_of student_data name = None)
   \<and> (map_of student_data name = Some [] \<longrightarrow>
        view_student_report alg student_data name = Inr [ReportHeader name, NoGradesRecorded])
   \<and> (map_of student_data name = Some subjects \<and> subjects \<noteq> [] \<longrightarrow>
        (\<exists>v. calculate_average_grade alg student_data name = Inr (Average v)
           \<and> view_student_report alg student_data name =
               Inr (ReportHeader name
                    # map (\<lambda>(subject, grade). SubjectLine subject grade) subjects
                    @ [OverallAverage (Average v), Separator (length name + 18)])))"
proof (intro conjI impI)
  show "view_student_report alg student_data name = Inr [StudentNotFound name]
      \<longleftrightarrow> map_of student_data name = None"
  proof (cases "map_of student_data name")
    case None
    then show ?thesis by (simp add: view_student_report_def)
  next
    case (Some subjects)
    show ?thesis
    proof (cases "subjects = []")
      case True
      then show ?thesis using Some by (simp add: view_student_report_def)
    next
      case False
      then show ?thesis using Some
        by (simp add: view_student_report_def split: sum.splits)
    qed
  qed
next
  assume "map_of student_data name = Some []"
  then show "view_student_report alg student_data name = Inr [ReportHeader name, NoGradesRecorded]"
    by (simp add: view_student_report_def)
next
  assume h: "map_of student_data name = Some subjects \<and> subjects \<noteq> []"
  then have "0 < length subjects" by simp
  then obtain m where "py_truediv (py_sum alg (map snd subjects)) (length subjects) = Inr m"
    using py_truediv_positive by blast
  then have a: "calculate_average_grade alg student_data name = Inr (Average (py_round2 m))"
    using h by (simp add: calculate_average_grade_def del: py_round2.simps)
  then have "view_student_report alg student_data name =
               Inr (ReportHeader name
                    # map (\<lambda>(subject, grade). SubjectLine subject grade) subjects
                    @ [OverallAverage (Average (py_round2 m)), Separator (length name + 18)])"
    using h by (simp add: view_student_report_def del: py_round2.simps)
  with a show "\<exists>v. calculate_average_grade alg student_data name = Inr (Average v)
           \<and> view_student_report alg student_data name =
               Inr (ReportHeader name
                    # map (\<lambda>(subject, grade). SubjectLine subject grade) subjects
                    @ [OverallAverage (Average v), Separator (length name + 18)])"
    by blast
qed

theorem view_student_report_cases_witness:
  "map_of sample_data ''Cy'' = None
   \<and> view_student_report Naive sample_data ''Cy'' = Inr [StudentNotFound ''Cy'']
   \<and> map_of sample_data ''Bob'' = Some []
   \<and> view_student_report Naive sample_data ''Bob'' = Inr [ReportHeader ''Bob'', NoGradesRecorded]
   \<and> map_of [(''Dee'', [(''Math'', Finite 80), (''Art'', Finite 90)])] ''Dee''
        = Some [(''Math'', Finite 80), (''Art'', Finite 90)]
   \<and> [(''Math'', Finite 80), (''Art'', Finite 90)] \<noteq> []
   \<and> view_student_report Naive [(''Dee'', [(''Math'', Finite 80), (''Art'', Finite 90)])] ''Dee''
        = Inr [ReportHeader ''Dee'', SubjectLine ''Math'' (Finite 80), SubjectLine ''Art'' (Finite 90),
               OverallAverage (Average (Finite 85)), Separator 21]"
proof -
  let ?dee = "[(''Dee'', [(''Math'', Finite 80), (''Art'', Finite 90)])]"
  have h1: "map_of sample_data ''Cy'' = None" by (simp add: sample_data_def)
  have h2: "map_of sample_data ''Bob'' = Some []" by (simp add: sample_data_def)
  have h3: "map_of ?dee ''Dee'' = Some [(''Math'', Finite 80), (''Art'', Finite 90)]" by simp
  have h4: "[(''Math'', Finite 80), (''Art'', Finite 90)] \<noteq> []" by simp
  have c1: "view_student_report Naive sample_data ''Cy'' = Inr [StudentNotFound ''Cy'']"
    using view_student_report_cases [where student_data = sample_data and name = "''Cy''"
      and alg = Naive] h1 by blast
  have c2: "view_student_report Naive sample_data ''Bob'' = Inr [ReportHeader ''Bob'', NoGradesRecorded]"
    using view_student_report_cases [where student_data = sample_data and name = "''Bob''"
      and alg = Naive] h2 by blast
  have a: "calculate_average_grade Naive ?dee ''Dee'' = Inr (Average (Finite 85))"
    using mean_exact [OF exactly_summable_80_90, of Naive] spec_average_80_90
    by (simp add: calculate_average_grade_def spec_average_def del: py_sum.simps)
  obtain v where v: "calculate_average_grade Naive ?dee ''Dee'' = Inr (Average v)"
    and r: "view_student_report Naive ?dee ''Dee'' =
               Inr (ReportHeader ''Dee''
                    # map (\<lambda>(subject, grade). SubjectLine subject grade)
                        [(''Math'', Finite 80), (''Art'', Finite 90)]
                    @ [OverallAverage (Average v), Separator (length ''Dee'' + 18)])"
    using view_student_report_cases [where student_data = ?dee and name = "''Dee''"
      and alg = Naive and subjects = "[(''Math'', Finite 80), (''Art'', Finite 90)]"] h3 h4
    by blast
  from v a have "v = Finite 85" by simp
  then have c3: "view_student_report Naive ?dee ''Dee''
        = Inr [ReportHeader ''Dee'', SubjectLine ''Math'' (Finite 80), SubjectLine ''Art'' (Finite 90),
               OverallAverage (Average (Finite 85)), Separator 21]"
    using r by simp
  from h1 c1 h2 c2 h3 h4 c3 show ?thesis by (intro conjI)
qed

text \<open>
  Claim C5 as the specification states it fails for a student without grades: the report
  has no line for the average, so none rendered as "N/A".
\<close>

theorem view_student_report_counterexample:
  "map_of sample_data ''Bob'' = Some []
   \<and> view_student_report Naive sample_data ''Bob'' = Inr [ReportHeader ''Bob'', NoGradesRecorded]
   \<and> view_student_report Neumaier sample_data ''Bob'' = Inr [ReportHeader ''Bob'', NoGradesRecorded]
   \<and> OverallAverage NotApplicable \<notin> set [ReportHeader ''Bob'', NoGradesRecorded]"
  by (simp add: sample_data_def view_student_report_def)

subsection \<open>Saving and loading\<close>



subsection \<open>The range of the stored scores\<close>

lemma scores_delete_outer:
  "set (stored_scores (AList.delete name student_data)) \<subseteq> set (stored_scores student_data)"
  by (induct student_data) (auto simp add: stored_scores_def)

lemma scores_delete_inner: "set (map snd (AList.delete k al)) \<subseteq> set (map snd al)"
  by (induct al) auto

lemma scores_add_student:
  "set (stored_scores (fst (add_student student_data name))) \<subseteq> set (stored_scores student_data)"
  using scores_update_outer [of name "[]" student_data] by (simp add: add_student_def)

lemma scores_delete_student:
  "set (stored_scores (fst (delete_student student_data name))) \<subseteq> set (stored_scores student_data)"
  using scores_delete_outer [of name student_data] by (simp add: delete_student_def)

lemma scores_delete_grade:
  "set (stored_scores (fst (delete_grade student_data name subject))) \<subseteq> set (stored_scores student_data)"
proof (cases "map_of student_data name")
  case None
  then show ?thesis by (simp add: delete_grade_def)
next
  case (Some subjects)
  have "set (stored_scores (AList.update name (AList.delete subject subjects) student_data))
      \<subseteq> set (map snd (AList.delete subject subjects)) \<union> set (stored_scores student_data)"
    by (rule scores_update_outer)
  also have "\<dots> \<subseteq> set (map snd subjects) \<union> set (stored_scores student_data)"
    using scores_delete_inner [of subject subjects] by blast
  also have "\<dots> \<subseteq> set (stored_scores student_data)"
    using scores_lookup [OF Some] by blast
  finally show ?thesis using Some by (simp add: delete_grade_def)
qed

lemma run_command_in_range:
  assumes "scores_in_range student_data"
  shows "scores_in_range (run_command float_of student_data command)"
proof (cases command)
  case (AddStudent name)
  then show ?thesis using assms scores_add_student [of student_data name]
    by (auto simp add: scores_in_range_def)
next
  case (AddGrade name subject grade)
  then show ?thesis using assms scores_add_grade [of float_of student_data name subject grade]
    by (auto simp add: scores_in_range_def)
next
  case (DeleteStudent name)
  then show ?thesis using assms scores_delete_student [of student_data name]
    by (auto simp add: scores_in_range_def)
next
  case (DeleteGrade name subject)
  then show ?thesis using assms scores_delete_grade [of student_data name subject]
    by (auto simp add: scores_in_range_def)
qed (simp_all add: assms)

lemma foldl_run_in_range:
  "scores_in_range student_data \<Longrightarrow>
     scores_in_range (foldl (run_command float_of) student_data commands)"
  by (induction commands arbitrary: student_data) (simp_all add: run_command_in_range)

text \<open>
  Claim C4, amended. Adding a student, adding a grade, deleting a student and deleting a
  grade keep every stored score in \<open>[0, 100]\<close>. The store after start-up, and after any
  sequence of menu choices, has every score in \<open>[0, 100]\<close> provided that the data file
  is absent, is rejected by the decoder, or decodes to a store whose scores are in
  \<open>[0, 100]\<close>: \<^verbatim>\<open>load_data\<close> does not check the scores it loads.
\<close>

theorem scores_in_range_invariant:
  "(scores_in_range student_data \<longrightarrow>
      scores_in_range (fst (add_student student_data name))
      \<and> scores_in_range (fst (add_grade float_of student_data name subject grade))
      \<and> scores_in_range (fst (delete_student student_data name))
      \<and> scores_in_range (fst (delete_grade student_data name subject)))
   \<and> ((\<forall>text loaded. data_file = Some text \<and> json_load text = Some loaded \<longrightarrow> scores_in_range loaded) \<longrightarrow>
      scores_in_range (fst (load_data json_load [] data_file))
      \<and> scores_in_range (session float_of json_load data_file commands))"
proof (intro conjI impI)
  assume a: "scores_in_range student_data"
  show "scores_in_range (fst (add_student student_data name))"
    using run_command_in_range [OF a, of float_of "AddStudent name"] by simp
  show "scores_in_range (fst (add_grade float_of student_data name subject grade))"
    using run_command_in_range [OF a, of float_of "AddGrade name subject grade"] by simp
  show "scores_in_range (fst (delete_student student_data name))"
    using run_command_in_range [OF a, of float_of "DeleteStudent name"] by simp
  show "scores_in_range (fst (delete_grade student_data name subject))"
    using run_command_in_range [OF a, of float_of "DeleteGrade name subject"] by simp
next
  assume h: "\<forall>text loaded. data_file = Some text \<and> json_load text = Some loaded \<longrightarrow> scores_in_range loaded"
  have e: "scores_in_range []" by (simp add: scores_in_range_def stored_scores_def)
  show l: "scores_in_range (fst (load_data json_load [] data_file))"
    using h e by (auto simp add: load_data_def split: option.splits)
  then show "scores_in_range (session float_of json_load data_file commands)"
    by (simp add: session_def foldl_run_in_range)
qed

theorem scores_in_range_invariant_witness:
  "scores_in_range sample_data
   \<and> scores_in_range (fst (add_grade sample_float_of sample_data ''Ann'' ''Math'' ''85''))
   \<and> sample_json_load bob_file = Some bob_data \<and> scores_in_range bob_data
   \<and> scores_in_range (session sample_float_of sample_json_load (Some bob_file)
         [AddStudent ''Ann'', AddGrade ''Ann'' ''Math'' ''85'', DeleteGrade ''Bob'' ''Art''])
   \<and> session sample_float_of sample_json_load (Some bob_file)
         [AddStudent ''Ann'', AddGrade ''Ann'' ''Math'' ''85'', DeleteGrade ''Bob'' ''Art'']
       = [(''Bob'', []), (''Ann'', [(''Math'', Finite 85)])]"
proof -
  have a: "scores_in_range sample_data"
    by (simp add: scores_in_range_def stored_scores_def sample_data_def in_range_def)
  have l: "sample_json_load bob_file = Some bob_data"
    by (simp add: sample_json_load_def bob_file_def)
  have b: "scores_in_range bob_data"
    by (simp add: scores_in_range_def stored_scores_def bob_data_def in_range_def)
  have h: "\<forall>text loaded. Some bob_file = Some text \<and> sample_json_load text = Some loaded \<longrightarrow>
         scores_in_range loaded"
    using l b by auto
  have c1: "scores_in_range (fst (add_grade sample_float_of sample_data ''Ann'' ''Math'' ''85''))"
    using scores_in_range_invariant [where student_data = sample_data and float_of = sample_float_of
      and name = "''Ann''" and subject = "''Math''" and grade = "''85''" and data_file = None] a
    by blast
  have c2: "scores_in_range (session sample_float_of sample_json_load (Some bob_file)
         [AddStudent ''Ann'', AddGrade ''Ann'' ''Math'' ''85'', DeleteGrade ''Bob'' ''Art''])"
    using scores_in_range_invariant [where data_file = "Some bob_file" and json_load = sample_json_load
      and float_of = sample_float_of
      and commands = "[AddStudent ''Ann'', AddGrade ''Ann'' ''Math'' ''85'', DeleteGrade ''Bob'' ''Art'']"] h
    by blast
  have v: "session sample_float_of sample_json_load (Some bob_file)
         [AddStudent ''Ann'', AddGrade ''Ann'' ''Math'' ''85'', DeleteGrade ''Bob'' ''Art'']
       = [(''Bob'', []), (''Ann'', [(''Math'', Finite 85)])]"
    by (simp add: session_def load_data_def l bob_data_def add_student_def add_grade_def
        delete_grade_def sample_float_of_def in_range_def)
  from a c1 l b c2 v show ?thesis by (intro conjI)
qed

text \<open>
  Claim C4 as the specification states it fails at start-up on a data file that holds a
  score of 150: \<^verbatim>\<open>load_data\<close> takes it as it is.
\<close>

theorem load_data_counterexample:
  "sample_json_load edited_file = Some [(''A'', [(''Math'', Finite 150)])]
   \<and> load_data sample_json_load [] (Some edited_file) = ([(''A'', [(''Math'', Finite 150)])], DataLoaded)
   \<and> session sample_float_of sample_json_load (Some edited_file) [] = [(''A'', [(''Math'', Finite 150)])]
   \<and> \<not> in_range (Finite 150)
   \<and> \<not> scores_in_range (session sample_float_of sample_json_load (Some edited_file) [])"
proof -
  have l: "sample_json_load edited_file = Some [(''A'', [(''Math'', Finite 150)])]"
    by (simp add: sample_json_load_def edited_file_def bob_file_def)
  then show ?thesis
    by (simp add: load_data_def session_def scores_in_range_def stored_scores_def in_range_def)
qed

subsection \<open>The keys stay distinct\<close>

lemma set_update_subset: "set (AList.update k v al) \<subseteq> insert (k, v) (set al)"
  by (induct al) auto

lemma set_delete_subset: "set (AList.delete k al) \<subseteq> set al"
  by (induct al) auto

lemma keys_distinct_update:
  assumes "keys_distinct student_data" and "distinct (map fst subjects)"
  shows "keys_distinct (AList.update name subjects student_data)"
proof -
  have "distinct (map fst (AList.update name subjects student_data))"
    using assms(1) by (simp add: keys_distinct_def AList.distinct_update)
  moreover have "\<forall>entry \<in> set (AList.update name subjects student_data). distinct (map fst (snd entry))"
    using assms set_update_subset [of name subjects student_data]
    by (auto simp add: keys_distinct_def)
  ultimately show ?thesis by (simp add: keys_distinct_def)
qed

lemma keys_distinct_lookup:
  "keys_distinct student_data \<Longrightarrow> map_of student_data name = Some subjects \<Longrightarrow>
     distinct (map fst subjects)"
proof -
  assume a: "keys_distinct student_data" and b: "map_of student_data name = Some subjects"
  from b have "(name, subjects) \<in> set student_data" by (rule map_of_SomeD)
  then show ?thesis using a by (auto simp add: keys_distinct_def)
qed

lemma operations_keep_keys_distinct:
  assumes "keys_distinct student_data"
  shows "keys_distinct (run_command float_of student_data command)"
proof (cases command)
  case (AddStudent name)
  then show ?thesis using assms keys_distinct_update [of student_data "[]" name]
    by (simp add: add_student_def)
next
  case (AddGrade name subject grade)
  show ?thesis
  proof (cases "map_of student_data name")
    case None
    then show ?thesis using assms AddGrade by (simp add: add_grade_def)
  next
    case (Some subjects)
    have "distinct (map fst subjects)" using assms Some by (rule keys_distinct_lookup)
    then have "distinct (map fst (AList.update subject g subjects))" for g
      by (rule AList.distinct_update)
    then have "keys_distinct (AList.update name (AList.update subject g subjects) student_data)" for g
      using assms by (intro keys_distinct_update)
    then show ?thesis using assms AddGrade Some
      by (simp add: add_grade_def split: option.splits)
  qed
next
  case (DeleteStudent name)
  have "distinct (map fst (AList.delete name student_data))"
    using assms by (simp add: keys_distinct_def AList.distinct_delete)
  moreover have "\<forall>entry \<in> set (AList.delete name student_data). distinct (map fst (snd entry))"
    using assms set_delete_subset [of name student_data] by (auto simp add: keys_distinct_def)
  ultimately show ?thesis using assms DeleteStudent
    by (simp add: delete_student_def keys_distinct_def)
next
  case (DeleteGrade name subject)
  show ?thesis
  proof (cases "map_of student_data name")
    case None
    then show ?thesis using assms DeleteGrade by (simp add: delete_grade_def)
  next
    case (Some subjects)
    have "distinct (map fst subjects)" using assms Some by (rule keys_distinct_lookup)
    then have "distinct (map fst (AList.delete subject subjects))"
      by (rule AList.distinct_delete)
    then have "keys_distinct (AList.update name (AList.delete subject subjects) student_data)"
      using assms by (intro keys_distinct_update)
    then show ?thesis using assms DeleteGrade Some by (simp add: delete_grade_def)
  qed
qed (simp_all add: assms)

end
